theory Spec2Isabelle
  imports Main
begin

section \<open>Python values used by the wrangles core\<close>

text \<open>
  Exceptions are values. Each constructor carries the argument the exception is raised
  with: the message of a \<open>ValueError\<close>, the key (or the message) of a \<open>KeyError\<close>.
  \<open>ReError\<close> is \<open>re.error\<close>, \<open>PandasKeyError\<close> is the \<open>KeyError\<close> pandas raises
  for column labels that are not in the frame (it carries the missing labels), and
  \<open>AttributeError t a\<close> says that an object of type \<open>t\<close> has no attribute \<open>a\<close>.
\<close>

datatype error =
    ValueError string
  | KeyError string
  | IndexError string
  | TypeError string
  | ReError string
  | PandasKeyError "string list"
  | AttributeError string string

text \<open>
  Strings are lists of 8-bit characters; a \<open>char\<close> stands for the code point of the
  same number. \<open>lower\<close> below is Python's \<open>str.lower\<close> on ASCII letters; the code
  uses it only to test for the prefix \<open>regex:\<close>, whose characters are the lower case
  of ASCII letters alone. \<open>strip\<close> is \<open>str.strip()\<close> with the white space Python
  knows below code point 256.
\<close>

definition lower_char :: "char \<Rightarrow> char" where
  "lower_char c =
     (let n = (of_char c :: nat) in if 65 \<le> n \<and> n \<le> 90 then char_of (n + 32) else c)"

definition lower :: "string \<Rightarrow> string" where
  "lower s = map lower_char s"

definition startswith :: "string \<Rightarrow> string \<Rightarrow> bool" where
  "startswith s p = (take (length p) s = p)"

definition isspace :: "char \<Rightarrow> bool" where
  "isspace c =
     (let n = (of_char c :: nat)
      in (9 \<le> n \<and> n \<le> 13) \<or> (28 \<le> n \<and> n \<le> 32) \<or> n = 133 \<or> n = 160)"

definition strip :: "string \<Rightarrow> string" where
  "strip s = rev (dropWhile isspace (rev (dropWhile isspace s)))"

text \<open>\<open>sep.join(xs)\<close>\<close>

fun join :: "string \<Rightarrow> string list \<Rightarrow> string" where
  "join sep [] = []"
| "join sep [x] = x"
| "join sep (x # y # ys) = x @ sep @ join sep (y # ys)"

text \<open>\<open>str(n)\<close> for a non-negative integer: its decimal digits.\<close>

definition digit_char :: "nat \<Rightarrow> char" where
  "digit_char d = char_of (48 + d)"

fun str_nat :: "nat \<Rightarrow> string" where
  "str_nat n = (if n < 10 then [digit_char n] else str_nat (n div 10) @ [digit_char (n mod 10)])"

declare str_nat.simps [simp del]

text \<open>
  A \<open>dict\<close> keeps insertion order, so it is an association list with distinct keys.
  \<open>dict_set d k v\<close> is \<open>d[k] = v\<close>: the value changes in place when the key is there,
  else the entry is appended. \<open>dict_merge a b\<close> is \<open>{**a, **b}\<close>. \<open>getitem d k\<close> is
  \<open>d[k]\<close>, which raises \<open>KeyError(k)\<close> on a missing key. \<open>fromkeys xs\<close> is the key
  list of \<open>dict.fromkeys(xs)\<close>: the first occurrence of each element, in order.
\<close>

type_synonym ('k, 'v) dict = "('k \<times> 'v) list"

fun dict_set :: "('k, 'v) dict \<Rightarrow> 'k \<Rightarrow> 'v \<Rightarrow> ('k, 'v) dict" where
  "dict_set [] k v = [(k, v)]"
| "dict_set ((k', v') # d) k v = (if k' = k then (k, v) # d else (k', v') # dict_set d k v)"

definition dict_merge :: "('k, 'v) dict \<Rightarrow> ('k, 'v) dict \<Rightarrow> ('k, 'v) dict" where
  "dict_merge a b = fold (\<lambda>(k, v) d. dict_set d k v) b a"

definition getitem :: "(string, 'v) dict \<Rightarrow> string \<Rightarrow> error + 'v" where
  "getitem d k = (case map_of d k of None \<Rightarrow> Inl (KeyError k) | Some v \<Rightarrow> Inr v)"

definition fromkeys :: "'a list \<Rightarrow> 'a list" where
  "fromkeys xs = rev (remdups (rev xs))"

text \<open>The sequencing of a computation that may raise.\<close>

fun traverse :: "('a \<Rightarrow> error + 'b) \<Rightarrow> 'a list \<Rightarrow> error + 'b list" where
  "traverse f [] = Inr []"
| "traverse f (x # xs) =
     (case f x of
        Inl e \<Rightarrow> Inl e
      | Inr y \<Rightarrow> (case traverse f xs of Inl e \<Rightarrow> Inl e | Inr ys \<Rightarrow> Inr (y # ys)))"

section \<open>Column Matcher: \<open>utils.wildcard_expansion_dict\<close> and \<open>utils.wildcard_expansion\<close>\<close>

text \<open>
  The functions of Python's \<open>re\<close> module that the matcher calls are a parameter:
  \<^item> \<open>compile_error p\<close> is \<open>Some msg\<close> when \<open>re.compile(p)\<close> raises \<open>re.error\<close>;
  \<^item> \<open>fullmatch p s\<close> says whether \<open>re.compile(p).fullmatch(s)\<close> is a match;
  \<^item> \<open>sub_once p repl s\<close> is \<open>re.sub(p, repl, s, count=1)\<close>, \<open>None\<close> when it raises
    \<open>re.error\<close> (a template that names a group the pattern does not have).
\<close>

record regex_engine =
  compile_error :: "string \<Rightarrow> string option"
  fullmatch :: "string \<Rightarrow> string \<Rightarrow> bool"
  sub_once :: "string \<Rightarrow> string \<Rightarrow> string \<Rightarrow> string option"

text \<open>
  \<open>re.search(r'[^\\]?\*', k)\<close>: somewhere in \<open>k\<close> stands a \<open>*\<close>, with or without one
  character other than a backslash before it.
\<close>

fun wildcard_search :: "string \<Rightarrow> bool" where
  "wildcard_search [] = False"
| "wildcard_search (c # cs) =
     (c = CHR ''*'' \<or>
      (c \<noteq> CHR 0x5C \<and> (case cs of [] \<Rightarrow> False | d # _ \<Rightarrow> d = CHR ''*'')) \<or>
      wildcard_search cs)"

text \<open>
  \<open>re.sub(r'(?<!\\)\*', repl, s)\<close> with a callable \<open>repl\<close>: every \<open>*\<close> whose left
  neighbour in \<open>s\<close> is not a backslash is replaced, left to right. \<open>f n\<close> is the text
  for the \<open>n\<close>-th replacement (from 1), \<open>n\<close> counts the replacements made so far and
  \<open>esc\<close> says that the character just read was a backslash.
\<close>

fun sub_star :: "(nat \<Rightarrow> string) \<Rightarrow> nat \<Rightarrow> bool \<Rightarrow> string \<Rightarrow> string" where
  "sub_star f n esc [] = []"
| "sub_star f n esc (c # cs) =
     (if c = CHR ''*'' \<and> \<not> esc then f (Suc n) @ sub_star f (Suc n) False cs
      else c # sub_star f n (c = CHR 0x5C) cs)"

text \<open>The replacement \<open>r'(.*)'\<close> for a key, and \<open>replacer\<close> (\<open>fr'\g<{n}>'\<close>) for a value.\<close>

definition group_pattern :: "nat \<Rightarrow> string" where
  "group_pattern n = ''(.*)''"

definition replacer :: "nat \<Rightarrow> string" where
  "replacer n = [CHR 0x5C] @ ''g<'' @ str_nat n @ ''>''"

definition is_regex_key :: "string \<Rightarrow> bool" where
  "is_regex_key k = startswith (lower k) ''regex:''"

text \<open>The first loop of \<open>wildcard_expansion_dict\<close>: wildcards become regex patterns.\<close>

definition convert_item :: "string \<times> string \<Rightarrow> string \<times> string" where
  "convert_item kv =
     (case kv of (k, v) \<Rightarrow>
        if wildcard_search k \<and> \<not> is_regex_key k
        then (''regex:'' @ sub_star group_pattern 0 False k, sub_star replacer 0 False v)
        else (k, v))"

definition convert_wildcards :: "(string, string) dict \<Rightarrow> (string, string) dict" where
  "convert_wildcards selected_columns =
     fold (\<lambda>kv tmp. case convert_item kv of (k, v) \<Rightarrow> dict_set tmp k v) selected_columns []"

text \<open>
  The optional marker: \<open>column[-1] == "?" and column not in all_columns\<close> strips the
  last character and sets \<open>optional_column\<close>. \<open>column[-1]\<close> raises \<open>IndexError\<close> on the
  empty string.
\<close>

definition optional_marker :: "string list \<Rightarrow> string \<Rightarrow> error + (string \<times> bool)" where
  "optional_marker all_columns column =
     (if column = [] then Inl (IndexError ''string index out of range'')
      else if last column = CHR ''?'' \<and> column \<notin> set all_columns
           then Inr (butlast column, True)
           else Inr (column, False))"

text \<open>The list \<open>matching_columns\<close> of a regex key \<open>column\<close> (without the prefix, stripped).\<close>

definition matching_columns :: "regex_engine \<Rightarrow> string list \<Rightarrow> string \<Rightarrow> string list" where
  "matching_columns re all_columns column =
     fromkeys (filter (fullmatch re (strip (drop 6 column))) all_columns)"

definition invalid_pattern :: "string \<Rightarrow> error" where
  "invalid_pattern v =
     ValueError (''Invalid regex pattern: '' @ v @ ''. Are you missing a capture group?'')"

definition rename_columns ::
  "regex_engine \<Rightarrow> string \<Rightarrow> string \<Rightarrow> string list \<Rightarrow> error + string list" where
  "rename_columns re column v matching =
     (let pat = strip (drop 6 column) in
      traverse
        (\<lambda>col.
           case (if column = v
                 then sub_once re (''('' @ pat @ '')'') [CHR 0x5C, CHR ''1''] col
                 else sub_once re pat v col) of
             None \<Rightarrow> Inl (invalid_pattern v)
           | Some r \<Rightarrow> Inr r)
        matching)"

text \<open>
  One round of the second loop: \<open>column\<close> is a key of \<open>selected_columns\<close>. The
  warning about duplicate renamed columns is logged only and changes nothing.
\<close>

definition expand_step ::
  "regex_engine \<Rightarrow> string list \<Rightarrow> (string, string) dict \<Rightarrow> string \<Rightarrow>
   (string, string) dict \<Rightarrow> error + (string, string) dict" where
  "expand_step re all_columns selected_columns column result_columns =
     (if is_regex_key column then
        (case compile_error re (strip (drop 6 column)) of
           Some msg \<Rightarrow> Inl (ReError msg)
         | None \<Rightarrow>
             (let matching = matching_columns re all_columns column in
              case getitem selected_columns column of
                Inl e \<Rightarrow> Inl e
              | Inr v \<Rightarrow>
                  (case rename_columns re column v matching of
                     Inl e \<Rightarrow> Inl e
                   | Inr renamed \<Rightarrow> Inr (dict_merge (zip matching renamed) result_columns))))
      else
        (case optional_marker all_columns column of
           Inl e \<Rightarrow> Inl e
         | Inr (column', optional_column) \<Rightarrow>
             if column' \<in> set all_columns then
               (case getitem selected_columns column' of
                  Inl e \<Rightarrow> Inl e
                | Inr v \<Rightarrow> Inr (dict_set result_columns column' v))
             else if \<not> optional_column
                  then Inl (KeyError (''Column '' @ column' @ '' does not exist''))
                  else Inr result_columns))"

fun expand_loop ::
  "regex_engine \<Rightarrow> string list \<Rightarrow> (string, string) dict \<Rightarrow> string list \<Rightarrow>
   (string, string) dict \<Rightarrow> error + (string, string) dict" where
  "expand_loop re all_columns selected_columns [] result_columns = Inr result_columns"
| "expand_loop re all_columns selected_columns (column # rest) result_columns =
     (case expand_step re all_columns selected_columns column result_columns of
        Inl e \<Rightarrow> Inl e
      | Inr r \<Rightarrow> expand_loop re all_columns selected_columns rest r)"

definition wildcard_expansion_dict ::
  "regex_engine \<Rightarrow> string list \<Rightarrow> (string, string) dict \<Rightarrow> error + (string, string) dict" where
  "wildcard_expansion_dict re all_columns selected_columns =
     (let tmp_columns = convert_wildcards selected_columns
      in expand_loop re all_columns tmp_columns (map fst tmp_columns) [])"

text \<open>
  \<open>wildcard_expansion\<close>, the sibling that returns names only. \<open>Union[str, list]\<close> is
  a value of \<open>one_or_many\<close>; \<open>as_list\<close> is \<open>if not isinstance(x, list): x = [x]\<close>.
\<close>

datatype 'a one_or_many = One 'a | Many "'a list"

fun as_list :: "'a one_or_many \<Rightarrow> 'a list" where
  "as_list (One x) = [x]"
| "as_list (Many xs) = xs"

definition convert_name :: "string \<Rightarrow> string" where
  "convert_name c =
     (if wildcard_search c \<and> \<not> is_regex_key c
      then ''regex:'' @ sub_star group_pattern 0 False c
      else c)"

definition names_step ::
  "regex_engine \<Rightarrow> string list \<Rightarrow> string \<Rightarrow> (string, unit) dict \<Rightarrow>
   error + (string, unit) dict" where
  "names_step re all_columns column result_columns =
     (if is_regex_key column then
        (case compile_error re (strip (drop 6 column)) of
           Some msg \<Rightarrow> Inl (ReError msg)
         | None \<Rightarrow>
             Inr (dict_merge result_columns
                    (map (\<lambda>c. (c, ())) (matching_columns re all_columns column))))
      else
        (case optional_marker all_columns column of
           Inl e \<Rightarrow> Inl e
         | Inr (column', optional_column) \<Rightarrow>
             if column' \<in> set all_columns then Inr (dict_set result_columns column' ())
             else if \<not> optional_column
                  then Inl (KeyError (''Column '' @ column' @ '' does not exist''))
                  else Inr result_columns))"

fun names_loop ::
  "regex_engine \<Rightarrow> string list \<Rightarrow> string list \<Rightarrow> (string, unit) dict \<Rightarrow>
   error + (string, unit) dict" where
  "names_loop re all_columns [] result_columns = Inr result_columns"
| "names_loop re all_columns (column # rest) result_columns =
     (case names_step re all_columns column result_columns of
        Inl e \<Rightarrow> Inl e
      | Inr r \<Rightarrow> names_loop re all_columns rest r)"

definition wildcard_expansion ::
  "regex_engine \<Rightarrow> string list \<Rightarrow> string one_or_many \<Rightarrow> error + string list" where
  "wildcard_expansion re all_columns selected_columns =
     (case names_loop re all_columns (map convert_name (as_list selected_columns)) [] of
        Inl e \<Rightarrow> Inl e
      | Inr result_columns \<Rightarrow> Inr (map fst result_columns))"

subsection \<open>The patterns that wildcards produce, run as Python's \<open>re\<close> runs them\<close>

text \<open>
  For the concrete examples the engine is instantiated on the fragment of \<open>re\<close> that a
  wildcard key produces: literal characters, a backslash before a character that is
  neither a letter nor a digit (that character, literally), and the group \<open>(.*)\<close>.
  A group is greedy and does not cross a newline; the matcher backtracks from the
  longest candidate, as \<open>re\<close> does. A template is made of literal characters,
  \<open>\g<n>\<close>, one-digit references \<open>\n\<close> and the doubled backslash. Anything else is
  outside the fragment: \<open>re_parse\<close> and \<open>parse_template\<close> return \<open>None\<close> there, and
  \<open>py_re\<close> reports it as an error, which says nothing about what \<open>re\<close> does.
\<close>

datatype re_token = Lit char | AnyGroup

definition re_special :: "char \<Rightarrow> bool" where
  "re_special c = (c \<in> set ''.^$*+?{}[]|()'' \<or> c = CHR 0x5C)"

definition is_digit :: "char \<Rightarrow> bool" where
  "is_digit c = (let n = (of_char c :: nat) in 48 \<le> n \<and> n \<le> 57)"

definition is_alnum :: "char \<Rightarrow> bool" where
  "is_alnum c =
     (let n = (of_char c :: nat)
      in (48 \<le> n \<and> n \<le> 57) \<or> (65 \<le> n \<and> n \<le> 90) \<or> (97 \<le> n \<and> n \<le> 122))"

fun re_parse :: "string \<Rightarrow> re_token list option" where
  "re_parse [] = Some []"
| "re_parse (c # cs) =
     (if take 4 (c # cs) = ''(.*)'' then map_option (Cons AnyGroup) (re_parse (drop 3 cs))
      else if c = CHR 0x5C then
        (case cs of
           [] \<Rightarrow> None
         | d # ds \<Rightarrow> if is_alnum d then None else map_option (Cons (Lit d)) (re_parse ds))
      else if re_special c then None
      else map_option (Cons (Lit c)) (re_parse cs))"

fun first_some :: "('a \<Rightarrow> 'b option) \<Rightarrow> 'a list \<Rightarrow> 'b option" where
  "first_some f [] = None"
| "first_some f (x # xs) = (case f x of None \<Rightarrow> first_some f xs | Some y \<Rightarrow> Some y)"

text \<open>
  \<open>match_here ts full s\<close> matches the tokens at the start of \<open>s\<close> and returns the
  groups and the text left over; with \<open>full\<close> the match must use up \<open>s\<close>.
\<close>

fun match_here :: "re_token list \<Rightarrow> bool \<Rightarrow> string \<Rightarrow> (string list \<times> string) option" where
  "match_here [] full s = (if full \<and> s \<noteq> [] then None else Some ([], s))"
| "match_here (Lit c # ts) full s =
     (case s of [] \<Rightarrow> None | d # ds \<Rightarrow> if d = c then match_here ts full ds else None)"
| "match_here (AnyGroup # ts) full s =
     first_some
       (\<lambda>n. map_option (\<lambda>(gs, r). (take n s # gs, r)) (match_here ts full (drop n s)))
       (rev [0..<Suc (length (takeWhile (\<lambda>c. c \<noteq> CHR 0x0A) s))])"

definition re_search :: "re_token list \<Rightarrow> string \<Rightarrow> (nat \<times> string list \<times> string) option" where
  "re_search ts s =
     first_some (\<lambda>i. map_option (\<lambda>(gs, r). (i, gs, r)) (match_here ts False (drop i s)))
       [0..<Suc (length s)]"

datatype template_item = TLit char | TGroup nat

definition nat_of_digits :: "string \<Rightarrow> nat" where
  "nat_of_digits ds = fold (\<lambda>c n. 10 * n + ((of_char c :: nat) - 48)) ds 0"

function parse_template :: "string \<Rightarrow> template_item list option" where
  "parse_template [] = Some []"
| "parse_template (c # cs) =
     (if c \<noteq> CHR 0x5C then map_option (Cons (TLit c)) (parse_template cs)
      else
        (case cs of
           [] \<Rightarrow> None
         | d # ds \<Rightarrow>
             if d = CHR 0x5C then map_option (Cons (TLit d)) (parse_template ds)
             else if d = CHR ''g'' then
               (case ds of
                  [] \<Rightarrow> None
                | b # rest \<Rightarrow>
                    let num = takeWhile is_digit rest; after = dropWhile is_digit rest
                    in if b = CHR ''<'' \<and> num \<noteq> [] \<and> take 1 after = ''>''
                       then map_option (Cons (TGroup (nat_of_digits num)))
                              (parse_template (drop 1 after))
                       else None)
             else if is_digit d \<and> d \<noteq> CHR ''0'' \<and> \<not> is_digit (case ds of [] \<Rightarrow> CHR ''x'' | b # _ \<Rightarrow> b)
               then map_option (Cons (TGroup (nat_of_digits [d]))) (parse_template ds)
             else None))"
  by pat_completeness auto
termination
proof (relation "measure length")
  fix c :: char and cs d ds b rest num after
  assume "after = dropWhile is_digit rest" "ds = b # rest" "cs = d # ds"
  moreover have "length (dropWhile is_digit rest) \<le> length rest"
    by (rule length_dropWhile_le)
  ultimately show "(drop 1 after, c # cs) \<in> measure length"
    by simp
qed auto

fun expand_template :: "template_item list \<Rightarrow> string list \<Rightarrow> string" where
  "expand_template [] groups = []"
| "expand_template (TLit c # items) groups = c # expand_template items groups"
| "expand_template (TGroup n # items) groups = (groups ! n) @ expand_template items groups"

definition template_ok :: "template_item list \<Rightarrow> nat \<Rightarrow> bool" where
  "template_ok items ngroups =
     list_all (\<lambda>it. case it of TLit c \<Rightarrow> True | TGroup n \<Rightarrow> n \<le> ngroups) items"

definition py_sub_once :: "string \<Rightarrow> string \<Rightarrow> string \<Rightarrow> string option" where
  "py_sub_once pat repl s =
     (case re_parse pat of
        None \<Rightarrow> None
      | Some ts \<Rightarrow>
          (case parse_template repl of
             None \<Rightarrow> None
           | Some items \<Rightarrow>
               if \<not> template_ok items (length (filter (\<lambda>t. t = AnyGroup) ts)) then None
               else
                 (case re_search ts s of
                    None \<Rightarrow> Some s
                  | Some (i, gs, r) \<Rightarrow>
                      Some (take i s
                            @ expand_template items
                                (take (length s - i - length r) (drop i s) # gs)
                            @ r))))"

definition py_re :: regex_engine where
  "py_re =
     \<lparr> compile_error = (\<lambda>p. if re_parse p = None then Some ''outside the fragment'' else None),
       fullmatch = (\<lambda>p s. case re_parse p of None \<Rightarrow> False
                           | Some ts \<Rightarrow> match_here ts True s \<noteq> None),
       sub_once = py_sub_once \<rparr>"

section \<open>Function Resolver: \<open>utils.get_nested_function\<close>\<close>

text \<open>
  A namespace node is \<open>None\<close>, a \<open>dict\<close> (looked up by key) or any other object
  (looked up by attribute: \<open>hasattr\<close>, \<open>getattr\<close>). An object carries a payload (the
  callable, the module) and its attributes. The attributes every Python object has
  (\<open>__class__\<close>, \<open>__doc__\<close>, ...) are not part of the model, so \<open>PyNone\<close> has none.
\<close>

datatype 'f pyobj =
    PyNone
  | PyDict "(string \<times> 'f pyobj) list"
  | PyObject 'f "(string \<times> 'f pyobj) list"

text \<open>\<open>s.split(c)\<close>: the pieces between the occurrences of \<open>c\<close>, never an empty list.\<close>

fun split_on :: "char \<Rightarrow> string \<Rightarrow> string list" where
  "split_on c [] = [[]]"
| "split_on c (x # xs) =
     (if x = c then [] # split_on c xs
      else (case split_on c xs of [] \<Rightarrow> [[x]] | y # ys \<Rightarrow> (x # y) # ys))"

definition not_recognized :: "string \<Rightarrow> error" where
  "not_recognized fn_string = ValueError (''Function '' @ fn_string @ '' not recognized'')"

text \<open>The loop \<open>for fn_name in fn_list\<close>.\<close>

fun lookup_path :: "string \<Rightarrow> 'f pyobj \<Rightarrow> string list \<Rightarrow> error + 'f pyobj" where
  "lookup_path fn_string obj [] = Inr obj"
| "lookup_path fn_string obj (fn_name # rest) =
     (case obj of
        PyDict d \<Rightarrow>
          (case map_of d fn_name of
             None \<Rightarrow> Inl (not_recognized fn_string)
           | Some obj' \<Rightarrow> lookup_path fn_string obj' rest)
      | PyObject f attrs \<Rightarrow>
          (case map_of attrs fn_name of
             None \<Rightarrow> Inl (not_recognized fn_string)
           | Some obj' \<Rightarrow> lookup_path fn_string obj' rest)
      | PyNone \<Rightarrow> Inl (not_recognized fn_string))"

text \<open>
  \<open>default_stock_functions\<close> is \<open>None\<close> or a string; \<open>if default_stock_functions\<close> holds
  for a string that is not empty.
\<close>

definition get_nested_function ::
  "string \<Rightarrow> 'f pyobj \<Rightarrow> 'f pyobj \<Rightarrow> string option \<Rightarrow> error + 'f pyobj" where
  "get_nested_function fn_string stock_functions custom_functions default_stock_functions =
     (if custom_functions = PyNone \<and> stock_functions = PyNone
      then Inl (ValueError ''No functions provided'')
      else
        (case split_on CHR ''.'' (strip fn_string) of
           [] \<Rightarrow> Inr stock_functions
         | first # others \<Rightarrow>
             if first = ''custom'' then
               (if others = [] then Inl (ValueError ''Custom function not defined correctly'')
                else lookup_path fn_string custom_functions others)
             else
               lookup_path fn_string stock_functions
                 ((first # others) @
                  (case default_stock_functions of
                     None \<Rightarrow> []
                   | Some d \<Rightarrow> if d \<noteq> [] then [d] else []))))"

section \<open>Parameter Binder: \<open>utils.add_special_parameters\<close>\<close>


section \<open>The table\<close>

text \<open>
  A \<open>DataFrame\<close> is the ordered list of its columns, each a name and its cells; all
  columns have the length of the index (\<open>wf_frame\<close>). A frame without columns is
  taken to have an empty index. The cells are of any type \<open>'c\<close>.
  \<^item> \<open>get_column df name\<close> is \<open>df[name]\<close>, \<open>get_columns df names\<close> is \<open>df[names]\<close>
    for a list of names;
  \<^item> \<open>set_column df name values\<close> is \<open>df[name] = values\<close> for a list of values, which
    pandas refuses when its length is not that of the index;
  \<^item> \<open>set_columns to_array df names rows\<close> is \<open>df[names] = rows\<close> for a list of
    rows. pandas first makes a two-dimensional array of the rows
    (\<open>np.ndim(rows) > 1\<close>, then \<open>DataFrame(rows).values\<close>); this conversion is the
    parameter \<open>to_array\<close>: numpy raises \<open>ValueError\<close> when the rows do not make a
    rectangular array (a cell that is itself a list, beside cells that are not), and
    the array may hold what a cell is coerced to in place of the cell (a float for an
    integer). pandas then refuses an array that
    is not as wide as \<open>names\<close> is long, and assigns the columns of the array.
\<close>

type_synonym 'c frame = "(string \<times> 'c list) list"

definition frame_rows :: "'c frame \<Rightarrow> nat" where
  "frame_rows df = (case df of [] \<Rightarrow> 0 | (name, cells) # rest \<Rightarrow> length cells)"

definition wf_frame :: "'c frame \<Rightarrow> bool" where
  "wf_frame df = (distinct (map fst df) \<and> list_all (\<lambda>(name, cells). length cells = frame_rows df) df)"

definition get_column :: "'c frame \<Rightarrow> string \<Rightarrow> error + 'c list" where
  "get_column df name = (case map_of df name of None \<Rightarrow> Inl (KeyError name) | Some cells \<Rightarrow> Inr cells)"

definition get_columns :: "'c frame \<Rightarrow> string list \<Rightarrow> error + 'c list list" where
  "get_columns df names =
     (let missing = filter (\<lambda>n. map_of df n = None) names
      in if missing \<noteq> [] then Inl (PandasKeyError missing) else traverse (get_column df) names)"

definition length_mismatch :: "nat \<Rightarrow> nat \<Rightarrow> error" where
  "length_mismatch n m =
     ValueError (''Length of values ('' @ str_nat n @ '') does not match length of index (''
                 @ str_nat m @ '')'')"

definition set_column :: "'c frame \<Rightarrow> string \<Rightarrow> 'c list \<Rightarrow> error + 'c frame" where
  "set_column df name values =
     (if df \<noteq> [] \<and> length values \<noteq> frame_rows df
      then Inl (length_mismatch (length values) (frame_rows df))
      else Inr (dict_set df name values))"

fun set_each :: "'c frame \<Rightarrow> (string \<times> 'c list) list \<Rightarrow> error + 'c frame" where
  "set_each df [] = Inr df"
| "set_each df ((name, values) # rest) =
     (case set_column df name values of Inl e \<Rightarrow> Inl e | Inr df' \<Rightarrow> set_each df' rest)"

definition set_columns ::
  "('c list list \<Rightarrow> error + 'c list list) \<Rightarrow> 'c frame \<Rightarrow> string list \<Rightarrow> 'c list list \<Rightarrow>
   error + 'c frame" where
  "set_columns to_array df names rows =
     (case to_array rows of
        Inl e \<Rightarrow> Inl e
      | Inr array \<Rightarrow>
          if (case array of [] \<Rightarrow> 0 | r # rest \<Rightarrow> length r) \<noteq> length names
          then Inl (ValueError ''Columns must be same length as key'')
          else set_each df (zip names (transpose array)))"

text \<open>
  \<open>df[input].astype(str).aggregate(sep.join, axis=1).tolist()\<close>, for the two or more
  columns \<open>input\<close> of aggregate mode: one string per row, the cells of the columns in
  that row, as strings (\<open>str_of\<close> is what \<open>astype(str)\<close> makes of a cell), joined by
  \<open>sep\<close>. On a table without rows \<open>aggregate\<close> does not call \<open>sep.join\<close> row by
  row: it returns a copy of the (empty) \<open>DataFrame\<close>, which has no \<open>tolist\<close>, so the
  expression raises \<open>AttributeError\<close>.
\<close>

definition aggregate_rows ::
  "('c \<Rightarrow> string) \<Rightarrow> string \<Rightarrow> 'c frame \<Rightarrow> string list \<Rightarrow> error + string list" where
  "aggregate_rows str_of sep df input =
     (case get_columns df input of
        Inl e \<Rightarrow> Inl e
      | Inr columns \<Rightarrow>
          if frame_rows df = 0 then Inl (AttributeError ''DataFrame'' ''tolist'')
          else Inr (map (join sep) (transpose (map (map str_of) columns))))"

text \<open>
  The loop \<open>for input_column, output_column in zip(input, output)\<close> that every wrapper
  ends with: \<open>df[output_column] = g(df[input_column])\<close>, on the frame as the rounds
  before have left it.
\<close>

fun apply_columns ::
  "('c list \<Rightarrow> error + 'c list) \<Rightarrow> 'c frame \<Rightarrow> (string \<times> string) list \<Rightarrow> error + 'c frame" where
  "apply_columns g df [] = Inr df"
| "apply_columns g df ((input_column, output_column) # rest) =
     (case get_column df input_column of
        Inl e \<Rightarrow> Inl e
      | Inr cells \<Rightarrow>
          (case g cells of
             Inl e \<Rightarrow> Inl e
           | Inr values \<Rightarrow>
               (case set_column df output_column values of
                  Inl e \<Rightarrow> Inl e
                | Inr df' \<Rightarrow> apply_columns g df' rest)))"

section \<open>Column Projector: the wrappers of \<open>recipe_wrangles/extract.py\<close>\<close>

text \<open>
  The transforms themselves (\<open>wrangles.extract.address\<close> and the others) are a
  parameter \<open>extract\<close>: they take the list of strings and the options the wrapper
  passes through unchanged (\<open>opts\<close> stands for \<open>dataType\<close>, \<open>responseContent\<close>,
  \<open>**kwargs\<close>, ...), and return the list of results or raise.
  \<open>input\<close> is a name or a list of names, \<open>output\<close> is \<open>None\<close>, a name or a list.
\<close>

definition extract_error :: error where
  "extract_error =
     ValueError ''Extract must output to a single column or equal amount of columns as input.''"

definition address ::
  "(string list \<Rightarrow> 'o \<Rightarrow> error + 'c list) \<Rightarrow> ('c \<Rightarrow> string) \<Rightarrow> 'c frame \<Rightarrow>
   string one_or_many \<Rightarrow> string one_or_many option \<Rightarrow> 'o \<Rightarrow> error + 'c frame" where
  "address extract str_of df input output opts =
     (let output = (case output of None \<Rightarrow> input | Some out \<Rightarrow> out);
          input = as_list input;
          output = as_list output
      in if length input \<noteq> length output \<and> length output > 1 then Inl extract_error
         else if length output = 1 \<and> length input > 1 then
           (case aggregate_rows str_of '' '' df input of
              Inl e \<Rightarrow> Inl e
            | Inr joined \<Rightarrow>
                (case extract joined opts of
                   Inl e \<Rightarrow> Inl e
                 | Inr values \<Rightarrow> set_column df (hd output) values))
         else apply_columns (\<lambda>cells. extract (map str_of cells) opts) df (zip input output))"

definition attributes ::
  "(string list \<Rightarrow> 'o \<Rightarrow> error + 'c list) \<Rightarrow> ('c \<Rightarrow> string) \<Rightarrow> 'c frame \<Rightarrow>
   string one_or_many \<Rightarrow> string one_or_many option \<Rightarrow> 'o \<Rightarrow> error + 'c frame" where
  "attributes extract str_of df input output opts =
     (let output = (case output of None \<Rightarrow> input | Some out \<Rightarrow> out);
          input = as_list input;
          output = as_list output
      in if length input \<noteq> length output \<and> length output > 1 then Inl extract_error
         else if length output = 1 \<and> length input > 1 then
           (case aggregate_rows str_of '' AAA '' df input of
              Inl e \<Rightarrow> Inl e
            | Inr joined \<Rightarrow>
                (case extract joined opts of
                   Inl e \<Rightarrow> Inl e
                 | Inr values \<Rightarrow> set_column df (hd output) values))
         else apply_columns (\<lambda>cells. extract (map str_of cells) opts) df (zip input output))"

text \<open>
  \<open>brackets\<close> coerces \<open>find\<close> (here \<open>find'\<close>) to a list and checks it after the lengths and before the
  columns are read.
\<close>

definition bracket_types :: "string list" where
  "bracket_types = [''round'', ''square'', ''curly'', ''angled'', ''all'']"

definition find_error :: error where
  "find_error = ValueError ''find must only contain the elements: round, square, curly, angled''"

definition brackets ::
  "(string list \<Rightarrow> string list \<Rightarrow> bool \<Rightarrow> error + 'c list) \<Rightarrow> ('c \<Rightarrow> string) \<Rightarrow> 'c frame \<Rightarrow>
   string one_or_many \<Rightarrow> string one_or_many option \<Rightarrow> string one_or_many \<Rightarrow> bool \<Rightarrow>
   error + 'c frame" where
  "brackets extract str_of df input output find' include_brackets =
     (let output = (case output of None \<Rightarrow> input | Some out \<Rightarrow> out);
          input = as_list input;
          output = as_list output
      in if length input \<noteq> length output \<and> length output > 1 then Inl extract_error
         else
           (let find' = as_list find'
            in if \<not> list_all (\<lambda>element. element \<in> set bracket_types) find' then Inl find_error
               else if length output = 1 \<and> length input > 1 then
                 (case aggregate_rows str_of '' '' df input of
                    Inl e \<Rightarrow> Inl e
                  | Inr joined \<Rightarrow>
                      (case extract joined find' include_brackets of
                         Inl e \<Rightarrow> Inl e
                       | Inr values \<Rightarrow> set_column df (hd output) values))
               else apply_columns (\<lambda>cells. extract (map str_of cells) find' include_brackets)
                      df (zip input output)))"

definition codes ::
  "(string list \<Rightarrow> 'o \<Rightarrow> error + 'c list) \<Rightarrow> ('c \<Rightarrow> string) \<Rightarrow> 'c frame \<Rightarrow>
   string one_or_many \<Rightarrow> string one_or_many option \<Rightarrow> 'o \<Rightarrow> error + 'c frame" where
  "codes extract str_of df input output opts =
     (let output = (case output of None \<Rightarrow> input | Some out \<Rightarrow> out);
          input = as_list input;
          output = as_list output
      in if length input \<noteq> length output \<and> length output > 1 then Inl extract_error
         else if length output = 1 \<and> length input > 1 then
           (case aggregate_rows str_of '' AAA '' df input of
              Inl e \<Rightarrow> Inl e
            | Inr joined \<Rightarrow>
                (case extract joined opts of
                   Inl e \<Rightarrow> Inl e
                 | Inr values \<Rightarrow> set_column df (hd output) values))
         else apply_columns (\<lambda>cells. extract (map str_of cells) opts) df (zip input output))"

text \<open>\<open>html\<close> and \<open>regex\<close> have the check on the lengths and the loop only.\<close>

definition html ::
  "(string list \<Rightarrow> 'o \<Rightarrow> error + 'c list) \<Rightarrow> ('c \<Rightarrow> string) \<Rightarrow> 'c frame \<Rightarrow>
   string one_or_many \<Rightarrow> string one_or_many option \<Rightarrow> 'o \<Rightarrow> error + 'c frame" where
  "html extract str_of df input output opts =
     (let output = (case output of None \<Rightarrow> input | Some out \<Rightarrow> out);
          input = as_list input;
          output = as_list output
      in if length input \<noteq> length output \<and> length output > 1 then Inl extract_error
         else apply_columns (\<lambda>cells. extract (map str_of cells) opts) df (zip input output))"

definition properties ::
  "(string list \<Rightarrow> 'o \<Rightarrow> error + 'c list) \<Rightarrow> ('c \<Rightarrow> string) \<Rightarrow> 'c frame \<Rightarrow>
   string one_or_many \<Rightarrow> string one_or_many option \<Rightarrow> 'o \<Rightarrow> error + 'c frame" where
  "properties extract str_of df input output opts =
     (let output = (case output of None \<Rightarrow> input | Some out \<Rightarrow> out);
          input = as_list input;
          output = as_list output
      in if length input \<noteq> length output \<and> length output > 1 then Inl extract_error
         else if length output = 1 \<and> length input > 1 then
           (case aggregate_rows str_of '' '' df input of
              Inl e \<Rightarrow> Inl e
            | Inr joined \<Rightarrow>
                (case extract joined opts of
                   Inl e \<Rightarrow> Inl e
                 | Inr values \<Rightarrow> set_column df (hd output) values))
         else apply_columns (\<lambda>cells. extract (map str_of cells) opts) df (zip input output))"

text \<open>
  \<open>regex\<close> applies \<open>re.findall(find, x)\<close> to every cell \<open>x\<close> of the column
  (\<open>findall\<close>, which raises on a cell that is not a string).
\<close>

definition regex ::
  "(string \<Rightarrow> 'c \<Rightarrow> error + 'c) \<Rightarrow> 'c frame \<Rightarrow> string one_or_many \<Rightarrow> string \<Rightarrow>
   string one_or_many option \<Rightarrow> error + 'c frame" where
  "regex findall df input find' output =
     (let output = (case output of None \<Rightarrow> input | Some out \<Rightarrow> out);
          input = as_list input;
          output = as_list output
      in if length input \<noteq> length output \<and> length output > 1 then Inl extract_error
         else apply_columns (traverse (findall find')) df (zip input output))"

section \<open>\<open>recipe_wrangles/split.py\<close>: \<open>tokenize\<close> and \<open>list\<close>\<close>

text \<open>
  \<open>format_tokenize\<close> is \<open>wrangles.format.tokenize(values, method, func, pattern)\<close>.
  \<open>functions\<close> is the dict of custom functions (\<open>{}\<close> by default).
\<close>

definition tokenize_error :: error where
  "tokenize_error =
     ValueError ''The list of inputs and outputs must be the same length for split.tokenize''"

definition method_error :: error where
  "method_error =
     ValueError (''Method must be one of: space, boundary, '' @
                 ''boundary_ignore_space, custom.<function>, regex:<pattern>'')"

definition tokenize ::
  "('c list \<Rightarrow> string \<Rightarrow> 'f pyobj option \<Rightarrow> string option \<Rightarrow> error + 'c list) \<Rightarrow> 'c frame \<Rightarrow>
   string one_or_many \<Rightarrow> string one_or_many option \<Rightarrow> string \<Rightarrow> 'f pyobj \<Rightarrow> error + 'c frame" where
  "tokenize format_tokenize df input output method functions =
     (let output = (case output of None \<Rightarrow> input | Some out \<Rightarrow> out);
          input = as_list input;
          output = as_list output
      in if length input \<noteq> length output then Inl tokenize_error
         else
           (case (if startswith method ''custom.'' then
                    (case get_nested_function method PyNone functions None of
                       Inl e \<Rightarrow> Inl e
                     | Inr func \<Rightarrow> Inr (''function'', Some func, None))
                  else if startswith (lower method) ''regex:'' then
                    Inr (''regex'', None, Some (strip (drop 6 method)))
                  else if method \<notin> set [''space'', ''boundary'', ''boundary_ignore_space'']
                    then Inl method_error
                  else Inr (method, None, None)) of
              Inl e \<Rightarrow> Inl e
            | Inr (method', func, pattern) \<Rightarrow>
                apply_columns (\<lambda>cells. format_tokenize cells method' func pattern)
                  df (zip input output)))"

text \<open>
  The cells of \<open>split.list\<close>: what \<open>json.loads\<close> returns (\<open>CFloat m e\<close> is the float
  \<open>m * 2 ^ e\<close>; no arithmetic is done on it). \<open>json_loads\<close>
  is a parameter; it is applied to every cell that is not a list already. \<open>py_len\<close>
  is \<open>len(x)\<close>, which raises \<open>TypeError\<close> on a value that has no length, and
  \<open>pad_row\<close> is \<open>x + [''] * (max_len - len(x))\<close>, which raises \<open>TypeError\<close> on a
  value that is not a list (messages shortened). \<open>to_array\<close> is the conversion that
  \<open>set_columns\<close> takes.
\<close>

datatype cell =
    CNone
  | CBool bool
  | CInt int
  | CFloat int int
  | CStr string
  | CList "cell list"
  | CDict "(string \<times> cell) list"

definition parse_row :: "(cell \<Rightarrow> error + cell) \<Rightarrow> cell \<Rightarrow> error + cell" where
  "parse_row json_loads row = (case row of CList xs \<Rightarrow> Inr (CList xs) | _ \<Rightarrow> json_loads row)"

definition py_len :: "cell \<Rightarrow> error + nat" where
  "py_len x =
     (case x of
        CStr s \<Rightarrow> Inr (length s)
      | CList xs \<Rightarrow> Inr (length xs)
      | CDict d \<Rightarrow> Inr (length d)
      | _ \<Rightarrow> Inl (TypeError ''object has no len()''))"

definition pad_row :: "nat \<Rightarrow> cell \<Rightarrow> error + cell list" where
  "pad_row max_len x =
     (case x of
        CList xs \<Rightarrow> Inr (xs @ replicate (max_len - length xs) (CStr []))
      | _ \<Rightarrow> Inl (TypeError ''cannot concatenate list''))"

definition is_wildcard_output :: "string one_or_many \<Rightarrow> bool" where
  "is_wildcard_output output =
     (case output of
        One s \<Rightarrow> CHR ''*'' \<in> set s
      | Many l \<Rightarrow> length l = 1 \<and> CHR ''*'' \<in> set (hd l))"

text \<open>\<open>template.replace('*', r)\<close>\<close>

definition replace_star :: "string \<Rightarrow> string \<Rightarrow> string" where
  "replace_star template r = concat (map (\<lambda>c. if c = CHR ''*'' then r else [c]) template)"

definition split_list ::
  "(cell \<Rightarrow> error + cell) \<Rightarrow> (cell list list \<Rightarrow> error + cell list list) \<Rightarrow> cell frame \<Rightarrow>
   string \<Rightarrow> string one_or_many \<Rightarrow> error + cell frame" where
  "split_list json_loads to_array df input output =
     (case get_column df input of
        Inl e \<Rightarrow> Inl e
      | Inr rows \<Rightarrow>
     (case traverse (parse_row json_loads) rows of
        Inl e \<Rightarrow> Inl e
      | Inr results \<Rightarrow>
          if length results = 0 then Inr df
          else
     (case traverse py_len results of
        Inl e \<Rightarrow> Inl e
      | Inr lens \<Rightarrow>
     (let max_len = fold max lens 0 in
      case traverse (pad_row max_len) results of
        Inl e \<Rightarrow> Inl e
      | Inr results \<Rightarrow>
          if is_wildcard_output output then
            (let wildcard_template = (case output of One s \<Rightarrow> s | Many l \<Rightarrow> hd l);
                 output_headers =
                   map (\<lambda>i. replace_star wildcard_template (str_nat i))
                     [1..<length (hd results) + 1]
             in set_columns to_array df output_headers results)
          else
            (case output of
               One name \<Rightarrow> set_column df name (map CList results)
             | Many names \<Rightarrow> set_columns to_array df names results)))))"

text \<open>
  The Function Resolver in the words of its description, to compare with
  \<open>lookup_path\<close>: \<open>child\<close> is one segment (a key of a mapping node, an attribute
  of an object node), \<open>walk\<close> follows the segments in sequence and is \<open>None\<close> as soon
  as one is missing.
\<close>

fun child :: "'f pyobj \<Rightarrow> string \<Rightarrow> 'f pyobj option" where
  "child PyNone name = None"
| "child (PyDict d) name = map_of d name"
| "child (PyObject f attrs) name = map_of attrs name"

fun walk :: "'f pyobj \<Rightarrow> string list \<Rightarrow> 'f pyobj option" where
  "walk obj [] = Some obj"
| "walk obj (name # names) =
     (case child obj name of None \<Rightarrow> None | Some obj' \<Rightarrow> walk obj' names)"

text \<open>
  The vocabulary of the Column Projector's description. \<open>output_list\<close> is the list of
  outputs after \<open>output\<close> has defaulted to \<open>input\<close> and been coerced to a list.
  \<open>joined_rows sep str_of columns\<close> is the aggregate input said row by row: for
  every row \<open>i\<close>, the cells of the columns at \<open>i\<close>, as strings, joined by \<open>sep\<close>.
\<close>

definition output_list :: "string one_or_many \<Rightarrow> string one_or_many option \<Rightarrow> string list" where
  "output_list input output = as_list (case output of None \<Rightarrow> input | Some out \<Rightarrow> out)"

definition joined_rows :: "string \<Rightarrow> ('c \<Rightarrow> string) \<Rightarrow> 'c list list \<Rightarrow> string list" where
  "joined_rows sep str_of columns =
     map (\<lambda>i. join sep (map (\<lambda>column. str_of (column ! i)) columns))
       [0..<(case columns of [] \<Rightarrow> 0 | column # rest \<Rightarrow> length column)]"

text \<open>
  Aggregate mode in the words of its description: one joined string per row, the
  transform invoked once over that joined column, the whole result assigned to the
  single output column.
\<close>

definition aggregate_call ::
  "(string list \<Rightarrow> error + 'c list) \<Rightarrow> string \<Rightarrow> ('c \<Rightarrow> string) \<Rightarrow> 'c frame \<Rightarrow> string list \<Rightarrow>
   string \<Rightarrow> error + 'c frame" where
  "aggregate_call transform sep str_of df input output_column =
     (case get_columns df input of
        Inl e \<Rightarrow> Inl e
      | Inr columns \<Rightarrow>
          (case transform (joined_rows sep str_of columns) of
             Inl e \<Rightarrow> Inl e
           | Inr values \<Rightarrow> set_column df output_column values))"

text \<open>
  The padding of \<open>split.list\<close> in the words of its description: every list is
  extended on the right with empty strings up to the length of the longest list.
  \<open>output_headers\<close> are the names a wildcard output generates, one per position.
\<close>

definition padded_rows :: "cell list list \<Rightarrow> cell list list" where
  "padded_rows parsed =
     map (\<lambda>xs. xs @ replicate (Max (length ` set parsed) - length xs) (CStr [])) parsed"

definition output_headers :: "string one_or_many \<Rightarrow> nat \<Rightarrow> string list" where
  "output_headers output n =
     map (\<lambda>i. replace_star (case output of One s \<Rightarrow> s | Many l \<Rightarrow> hd l) (str_nat i)) [1..<n + 1]"

text \<open>
  The wildcard conversion in the words of its description. \<open>unescaped_star\<close> says that
  a string has a \<open>*\<close> with no backslash right before it; \<open>segments\<close> are the pieces of
  the string between such stars; \<open>join_numbered f n\<close> puts the pieces together again
  with \<open>f (n + 1)\<close>, \<open>f (n + 2)\<close>, ... between them, in that order.
\<close>

fun unescaped_star :: "bool \<Rightarrow> string \<Rightarrow> bool" where
  "unescaped_star esc [] = False"
| "unescaped_star esc (c # cs) = ((c = CHR ''*'' \<and> \<not> esc) \<or> unescaped_star (c = CHR 0x5C) cs)"

fun segments :: "bool \<Rightarrow> string \<Rightarrow> string list" where
  "segments esc [] = [[]]"
| "segments esc (c # cs) =
     (if c = CHR ''*'' \<and> \<not> esc then [] # segments False cs
      else (case segments (c = CHR 0x5C) cs of [] \<Rightarrow> [[c]] | s # ss \<Rightarrow> (c # s) # ss))"

fun join_numbered :: "(nat \<Rightarrow> string) \<Rightarrow> nat \<Rightarrow> string list \<Rightarrow> string" where
  "join_numbered f n [] = []"
| "join_numbered f n [x] = x"
| "join_numbered f n (x # y # ys) = x @ f (Suc n) @ join_numbered f (Suc n) (y # ys)"

text \<open>
  The column a literal key contributes: the key itself, or the key without its
  question mark when the key is not a column; nothing when that column does not exist.
\<close>

definition literal_target :: "string list \<Rightarrow> string \<Rightarrow> string option" where
  "literal_target all_columns column =
     (case optional_marker all_columns column of
        Inl e \<Rightarrow> None
      | Inr (column', optional_column) \<Rightarrow>
          if column' \<in> set all_columns then Some column' else None)"

text \<open>
  The two groups of entries in the result of \<open>wildcard_expansion_dict\<close>, for the keys
  \<open>ks\<close> in the order of their declaration: the columns that the regex keys match, the
  matches of a later key before those of an earlier one, and the columns of the
  literal keys, in the order of the keys.
\<close>

definition regex_columns :: "regex_engine \<Rightarrow> string list \<Rightarrow> string list \<Rightarrow> string list" where
  "regex_columns re all_columns ks =
     concat (rev (map (matching_columns re all_columns) (filter is_regex_key ks)))"

definition literal_columns :: "string list \<Rightarrow> string list \<Rightarrow> string list" where
  "literal_columns all_columns ks =
     List.map_filter (literal_target all_columns) (filter (\<lambda>k. \<not> is_regex_key k) ks)"

section \<open>Properties of the Column Matcher: optional columns\<close>

lemma wildcard_search_iff: "wildcard_search s \<longleftrightarrow> CHR ''*'' \<in> set s"
  by (induction s) (auto split: list.splits)

text \<open>
  What the literal branch does with a key that is not empty, one lemma per case:
  an optional key whose column is absent is skipped, an absent key that is not
  optional raises, a key that is a column is mapped.
\<close>

lemma optional_absent_skipped:
  assumes "\<not> is_regex_key column" "column \<noteq> []" "last column = CHR ''?''"
    and "column \<notin> set all_columns" "butlast column \<notin> set all_columns"
  shows "expand_step re all_columns selected_columns column result_columns = Inr result_columns"
  using assms by (simp add: expand_step_def optional_marker_def)

lemma required_absent_raises:
  assumes "\<not> is_regex_key column" "column \<noteq> []" "last column \<noteq> CHR ''?''"
    and "column \<notin> set all_columns"
  shows "expand_step re all_columns selected_columns column result_columns =
           Inl (KeyError (''Column '' @ column @ '' does not exist''))"
  using assms by (simp add: expand_step_def optional_marker_def)

lemma present_mapped:
  assumes "\<not> is_regex_key column" "column \<noteq> []" "column \<in> set all_columns"
    and "map_of selected_columns column = Some v"
  shows "expand_step re all_columns selected_columns column result_columns =
           Inr (dict_set result_columns column v)"
  using assms by (simp add: expand_step_def optional_marker_def getitem_def)

lemma empty_key_index_error:
  "expand_step re all_columns selected_columns [] result_columns =
     Inl (IndexError ''string index out of range'')"
  by (simp add: expand_step_def optional_marker_def is_regex_key_def startswith_def lower_def)

text \<open>
  Claim C5 (every literal key: optional and absent is skipped, absent and not
  optional raises the missing-column error, present is mapped). The three lemmas above
  hold, but the optional key \<open>a?\<close> over a table that has the column \<open>a\<close> is neither
  skipped nor mapped: \<open>wildcard_expansion_dict\<close> looks the stripped name \<open>a\<close> up in
  the spec, where the key is \<open>a?\<close>, and raises \<open>KeyError('a')\<close>. The sibling
  \<open>wildcard_expansion\<close> returns the column \<open>a\<close> on the same input.
\<close>

theorem optional_present_key_error:
  "wildcard_expansion_dict re [''a''] [(''a?'', ''b'')] = Inl (KeyError ''a'')
   \<and> wildcard_expansion re [''a''] (One ''a?'') = Inr [''a'']"
  by (simp add: wildcard_expansion_dict_def convert_wildcards_def convert_item_def
      expand_step_def optional_marker_def getitem_def wildcard_expansion_def convert_name_def
      names_step_def is_regex_key_def startswith_def lower_def)

text \<open>
  One round of either loop on a literal key that ends in \<open>?\<close> and is itself a column:
  the marker is not stripped, the key is mapped under its full name. The marker is
  stripped only from a key that is not a column.
\<close>

lemma question_mark_step:
  assumes "column \<noteq> []" "last column = CHR ''?''" "column \<in> set all_columns"
    and "\<not> is_regex_key column"
  shows "optional_marker all_columns column = Inr (column, False)"
    and "expand_step re all_columns selected_columns column result_columns =
        (case getitem selected_columns column of
           Inl e \<Rightarrow> Inl e
         | Inr v \<Rightarrow> Inr (dict_set result_columns column v))"
    and "names_step re all_columns column names = Inr (dict_set names column ())"
  using assms
  by (auto simp: optional_marker_def expand_step_def names_step_def split: if_splits)

lemma optional_marker_strips_absent:
  "optional_marker all_columns c = Inr (c', True) \<Longrightarrow> c \<notin> set all_columns \<and> c' = butlast c"
  by (auto simp: optional_marker_def split: if_splits)

section \<open>Properties of \<open>split.tokenize\<close>\<close>

text \<open>
  Claim C6, as the code has it: \<open>split.tokenize\<close> has no aggregate mode. Whenever the
  list of inputs and the list of outputs differ in length, one output for several
  inputs included, it raises the \<open>ValueError\<close> of \<open>tokenize_error\<close>; with equal
  lengths and one of the three built-in methods it runs the loop over the zipped pairs.
\<close>

theorem tokenize_lengths:
  "(length (as_list input) \<noteq> length (as_list (case output of None \<Rightarrow> input | Some out \<Rightarrow> out))
      \<longrightarrow> tokenize format_tokenize df input output method functions = Inl tokenize_error)
   \<and> (length (as_list input) = length (as_list (case output of None \<Rightarrow> input | Some out \<Rightarrow> out))
        \<and> method \<in> set [''space'', ''boundary'', ''boundary_ignore_space'']
      \<longrightarrow> tokenize format_tokenize df input output method functions =
            apply_columns (\<lambda>cells. format_tokenize cells method None None) df
              (zip (as_list input) (as_list (case output of None \<Rightarrow> input | Some out \<Rightarrow> out))))"
  by (auto simp: tokenize_def Let_def startswith_def lower_def lower_char_def)

theorem tokenize_lengths_witness:
  "tokenize (\<lambda>cells method func pattern. Inr (rev cells))
     [(''a'', [''x'', ''y''])] (One ''a'') (Some (One ''out''))
     ''space'' (PyDict ([] :: (string \<times> unit pyobj) list))
   = Inr [(''a'', [''x'', ''y'']), (''out'', [''y'', ''x''])]
   \<and> tokenize (\<lambda>cells method func pattern. Inr (rev cells))
     [(''a'', [''x'', ''y''])] (Many [''a'', ''a'']) (Some (One ''out''))
     ''space'' (PyDict ([] :: (string \<times> unit pyobj) list))
   = Inl tokenize_error"
  using tokenize_lengths [of "One ''a''" "Some (One ''out'')"
      "\<lambda>cells method func pattern. Inr (rev cells)" "[(''a'', [''x'', ''y''])]" "''space''"
      "PyDict ([] :: (string \<times> unit pyobj) list)"]
    tokenize_lengths [of "Many [''a'', ''a'']" "Some (One ''out'')"
      "\<lambda>cells method func pattern. Inr (rev cells)" "[(''a'', [''x'', ''y''])]" "''space''"
      "PyDict ([] :: (string \<times> unit pyobj) list)"]
  by (simp add: get_column_def set_column_def frame_rows_def)

theorem tokenize_aggregate_counterexample:
  "tokenize (\<lambda>cells method func pattern. Inr cells)
     [(''a'', [''x y'']), (''b'', [''z''])] (Many [''a'', ''b'']) (Some (One ''out''))
     ''space'' (PyDict ([] :: (string \<times> unit pyobj) list)) = Inl tokenize_error"
  by (simp add: tokenize_def)

section \<open>Properties of the Parameter Binder\<close>

lemma map_of_dict_set: "map_of (dict_set d k v) = (map_of d)(k \<mapsto> v)"
  by (induction d) auto

lemma keys_dict_set: "fst ` set (dict_set d k v) = insert k (fst ` set d)"
proof -
  have "dom (map_of (dict_set d k v)) = insert k (dom (map_of d))"
    by (simp add: map_of_dict_set)
  then show ?thesis by (simp add: dom_map_of_conv_image_fst)
qed

lemma map_of_fold_dict_set:
  "distinct (map fst b) \<Longrightarrow>
   map_of (fold (\<lambda>(k, v) d. dict_set d k v) b a) = map_of a ++ map_of b"
proof (induction b arbitrary: a)
  case Nil
  then show ?case by simp
next
  case (Cons kv b)
  obtain k v where kv: "kv = (k, v)" by (cases kv)
  from Cons.prems kv have d: "distinct (map fst b)" and nk: "k \<notin> fst ` set b" by auto
  from nk have none: "map_of b k = None" by (simp add: map_of_eq_None_iff)
  have eq: "(map_of a)(k \<mapsto> v) ++ map_of b = map_of a ++ map_of ((k, v) # b)"
  proof (rule ext)
    fix x show "((map_of a)(k \<mapsto> v) ++ map_of b) x = (map_of a ++ map_of ((k, v) # b)) x"
      using none by (cases "x = k") (simp_all add: map_add_def split: option.splits)
  qed
  have "map_of (fold (\<lambda>(k, v) d. dict_set d k v) (kv # b) a) =
        map_of (dict_set a k v) ++ map_of b"
    using Cons.IH [OF d, of "dict_set a k v"] kv by simp
  also have "\<dots> = map_of a ++ map_of (kv # b)"
    using eq kv by (simp only: map_of_dict_set)
  finally show ?case .
qed

lemma map_of_dict_merge:
  "distinct (map fst b) \<Longrightarrow> map_of (dict_merge a b) = map_of a ++ map_of b"
  by (simp add: dict_merge_def map_of_fold_dict_set)







section \<open>Properties of the Function Resolver\<close>

lemma split_on_not_Nil: "split_on c s \<noteq> []"
  by (induction s) (auto split: list.splits)

lemma lookup_path_walk:
  "lookup_path fn_string obj names =
     (case walk obj names of None \<Rightarrow> Inl (not_recognized fn_string) | Some target \<Rightarrow> Inr target)"
  by (induction names arbitrary: obj) (auto split: pyobj.splits option.splits)

lemma split_on_no_sep: "c \<notin> set s \<Longrightarrow> split_on c s = [s]"
  by (induction s) auto

lemma split_on_append:
  "c \<notin> set s \<Longrightarrow> split_on c (s @ c # t) = s # split_on c t"
  by (induction s) (auto simp: split_on_not_Nil split: list.splits)

lemma strip_custom:
  "strip (''custom.'' @ rest) = ''custom.'' @ rev (dropWhile isspace (rev rest))"
  by (simp add: strip_def isspace_def dropWhile_append)

text \<open>
  Claim C8: with neither root, \<open>get_nested_function\<close> raises the error "No functions
  provided", whatever the name. With a root, a name \<open>custom.<rest>\<close> is resolved
  against the custom root alone: the prefix is dropped and the segments of the rest
  (split at the dots, trailing white space stripped) are followed one by one, each a
  key of a mapping node or an attribute of an object node; a segment that is missing at
  any depth raises the error that names \<open>fn_string\<close>. Any other name is resolved the
  same way against the stock root, after the default segment (when there is one) has
  been appended.
\<close>

theorem get_nested_function_resolves:
  "get_nested_function fn_string PyNone PyNone default_stock_functions =
     Inl (ValueError ''No functions provided'')
   \<and> (\<not> (custom_functions = PyNone \<and> stock_functions = PyNone) \<longrightarrow>
        get_nested_function (''custom.'' @ rest) stock_functions custom_functions
          default_stock_functions =
        (case walk custom_functions (split_on CHR ''.'' (rev (dropWhile isspace (rev rest)))) of
           None \<Rightarrow> Inl (not_recognized (''custom.'' @ rest))
         | Some target \<Rightarrow> Inr target))
   \<and> (\<not> (custom_functions = PyNone \<and> stock_functions = PyNone) \<and>
        hd (split_on CHR ''.'' (strip fn_string)) \<noteq> ''custom'' \<longrightarrow>
        get_nested_function fn_string stock_functions custom_functions default_stock_functions =
        (case walk stock_functions
                (split_on CHR ''.'' (strip fn_string) @
                 (case default_stock_functions of
                    None \<Rightarrow> []
                  | Some d \<Rightarrow> if d \<noteq> [] then [d] else [])) of
           None \<Rightarrow> Inl (not_recognized fn_string)
         | Some target \<Rightarrow> Inr target))"
proof (intro conjI impI)
  show "get_nested_function fn_string PyNone PyNone default_stock_functions =
     Inl (ValueError ''No functions provided'')"
    by (simp add: get_nested_function_def)
next
  assume roots: "\<not> (custom_functions = PyNone \<and> stock_functions = PyNone)"
  let ?r = "rev (dropWhile isspace (rev rest))"
  have st: "strip (''custom.'' @ rest) = ''custom'' @ CHR ''.'' # ?r"
    using strip_custom [of rest] by simp
  have sp: "split_on CHR ''.'' (strip (''custom.'' @ rest)) = ''custom'' # split_on CHR ''.'' ?r"
    unfolding st by (rule split_on_append) simp
  show "get_nested_function (''custom.'' @ rest) stock_functions custom_functions
          default_stock_functions =
        (case walk custom_functions (split_on CHR ''.'' ?r) of
           None \<Rightarrow> Inl (not_recognized (''custom.'' @ rest))
         | Some target \<Rightarrow> Inr target)"
  proof -
    from roots have r: "(custom_functions = PyNone \<and> stock_functions = PyNone) = False"
      by simp
    show ?thesis
      unfolding get_nested_function_def sp lookup_path_walk r
      by (simp add: split_on_not_Nil del: split_on.simps)
  qed
next
  assume a: "\<not> (custom_functions = PyNone \<and> stock_functions = PyNone) \<and>
        hd (split_on CHR ''.'' (strip fn_string)) \<noteq> ''custom''"
  obtain first others where sp: "split_on CHR ''.'' (strip fn_string) = first # others"
    using split_on_not_Nil [of "CHR ''.''" "strip fn_string"] by (auto simp: neq_Nil_conv)
  with a have "first \<noteq> ''custom''" by simp
  with a show "get_nested_function fn_string stock_functions custom_functions
        default_stock_functions =
        (case walk stock_functions
                (split_on CHR ''.'' (strip fn_string) @
                 (case default_stock_functions of
                    None \<Rightarrow> []
                  | Some d \<Rightarrow> if d \<noteq> [] then [d] else [])) of
           None \<Rightarrow> Inl (not_recognized fn_string)
         | Some target \<Rightarrow> Inr target)"
    unfolding get_nested_function_def sp lookup_path_walk
    by (auto simp del: split_on.simps)
qed

theorem get_nested_function_resolves_witness:
  "get_nested_function ''custom.a.b'' PyNone
     (PyDict [(''a'', PyObject (0::nat) [(''b'', PyObject 1 [])])]) None = Inr (PyObject 1 [])
   \<and> get_nested_function ''custom.a.c'' PyNone
     (PyDict [(''a'', PyObject (0::nat) [(''b'', PyObject 1 [])])]) None =
     Inl (ValueError ''Function custom.a.c not recognized'')
   \<and> get_nested_function ''split.text''
     (PyObject (0::nat) [(''split'', PyDict [(''text'', PyObject 1 [(''run'', PyObject 2 [])])])])
     PyNone (Some ''run'') = Inr (PyObject 2 [])"
proof -
  let ?custom = "PyDict [(''a'', PyObject (0::nat) [(''b'', PyObject 1 [])])]"
  let ?stock =
    "PyObject (0::nat) [(''split'', PyDict [(''text'', PyObject 1 [(''run'', PyObject 2 [])])])]"
  have a: "get_nested_function ''custom.a.b'' PyNone ?custom None = Inr (PyObject 1 [])"
    using get_nested_function_resolves [where custom_functions = ?custom
        and stock_functions = PyNone and rest = "''a.b''" and default_stock_functions = None
        and fn_string = "''x''"]
    by (simp add: isspace_def not_recognized_def) (elim conjE, assumption)
  have b: "get_nested_function ''custom.a.c'' PyNone ?custom None =
      Inl (ValueError ''Function custom.a.c not recognized'')"
    using get_nested_function_resolves [where custom_functions = ?custom
        and stock_functions = PyNone and rest = "''a.c''" and default_stock_functions = None
        and fn_string = "''x''"]
    by (simp add: isspace_def not_recognized_def) (elim conjE, assumption)
  have c: "get_nested_function ''split.text'' ?stock PyNone (Some ''run'') = Inr (PyObject 2 [])"
    using get_nested_function_resolves [where custom_functions = PyNone
        and stock_functions = ?stock and rest = "''a''" and default_stock_functions = "Some ''run''"
        and fn_string = "''split.text''"]
    by (simp add: isspace_def strip_def not_recognized_def) (elim conjE, assumption)
  from a b c show ?thesis by (intro conjI)
qed

section \<open>Properties of the Column Projector\<close>

lemma keys_list_dict_set:
  "map fst (dict_set d k v) = (if k \<in> set (map fst d) then map fst d else map fst d @ [k])"
proof (induction d)
  case Nil
  then show ?case by simp
next
  case (Cons a d)
  obtain k' v' where a: "a = (k', v')" by (cases a)
  show ?case
  proof (cases "k' = k")
    case True
    then show ?thesis by (simp add: a)
  next
    case False
    then show ?thesis using Cons.IH by (simp add: a)
  qed
qed

lemma set_dict_set: "set (dict_set d k v) \<subseteq> insert (k, v) (set d)"
proof (induction d)
  case Nil
  then show ?case by simp
next
  case (Cons a d)
  obtain k' v' where a: "a = (k', v')" by (cases a)
  show ?case
  proof (cases "k' = k")
    case True
    then show ?thesis by (auto simp: a)
  next
    case False
    then show ?thesis using Cons.IH by (auto simp: a)
  qed
qed

lemma distinct_dict_set: "distinct (map fst d) \<Longrightarrow> distinct (map fst (dict_set d k v))"
  by (simp add: keys_list_dict_set)

lemma frame_rows_dict_set:
  "df \<noteq> [] \<Longrightarrow> length values = frame_rows df \<Longrightarrow> frame_rows (dict_set df name values) = frame_rows df"
  by (cases df) (auto simp: frame_rows_def)

lemma wf_frame_dict_set:
  assumes "wf_frame df" and "df = [] \<or> length values = frame_rows df"
  shows "wf_frame (dict_set df name values)"
proof (cases "df = []")
  case True
  then show ?thesis by (simp add: wf_frame_def frame_rows_def)
next
  case False
  with assms have len: "length values = frame_rows df" by simp
  have rows: "frame_rows (dict_set df name values) = frame_rows df"
    using False len by (rule frame_rows_dict_set)
  have "\<forall>(n, cells) \<in> set (dict_set df name values). length cells = frame_rows df"
    using set_dict_set [of df name "values"] assms(1) len
    by (auto simp: wf_frame_def list_all_iff)
  with assms(1) show ?thesis
    by (simp add: wf_frame_def rows distinct_dict_set list_all_iff)
qed

lemma get_column_present:
  assumes "name \<in> fst ` set df"
  shows "\<exists>cells. get_column df name = Inr cells \<and> (name, cells) \<in> set df"
proof -
  from assms obtain cells where "map_of df name = Some cells"
    by (metis map_of_eq_None_iff not_Some_eq)
  then show ?thesis by (auto simp: get_column_def dest: map_of_SomeD)
qed

lemma wf_frame_length: "wf_frame df \<Longrightarrow> (name, cells) \<in> set df \<Longrightarrow> length cells = frame_rows df"
  by (auto simp: wf_frame_def list_all_iff)

lemma set_column_ok:
  assumes "wf_frame df" "df = [] \<or> length values = frame_rows df"
  shows "set_column df name values = Inr (dict_set df name values)"
  using assms by (auto simp: set_column_def)

lemma apply_columns_succeeds:
  assumes "\<And>cells. \<exists>values. g cells = Inr values \<and> length values = length cells"
  shows "wf_frame df \<Longrightarrow> fst ` set pairs \<subseteq> fst ` set df \<Longrightarrow>
         \<exists>df'. apply_columns g df pairs = Inr df'"
proof (induction pairs arbitrary: df)
  case Nil
  then show ?case by simp
next
  case (Cons p pairs)
  obtain i out where p: "p = (i, out)" by (cases p)
  with Cons.prems have "i \<in> fst ` set df" by simp
  then obtain cells where c: "get_column df i = Inr cells" "(i, cells) \<in> set df"
    using get_column_present by blast
  from assms obtain vs where v: "g cells = Inr vs" "length vs = length cells" by blast
  have len: "length vs = frame_rows df"
    using v(2) wf_frame_length [OF Cons.prems(1) c(2)] by simp
  have s: "set_column df out vs = Inr (dict_set df out vs)"
    using Cons.prems(1) len by (simp add: set_column_ok)
  have wf: "wf_frame (dict_set df out vs)"
    using Cons.prems(1) len by (simp add: wf_frame_dict_set)
  have keys: "fst ` set pairs \<subseteq> fst ` set (dict_set df out vs)"
  proof -
    have "set (map fst df) \<subseteq> set (map fst (dict_set df out vs))"
      by (auto simp: keys_list_dict_set)
    then have "fst ` set df \<subseteq> fst ` set (dict_set df out vs)" by simp
    moreover have "fst ` set pairs \<subseteq> fst ` set df" using Cons.prems(2) by simp
    ultimately show ?thesis by (rule order_trans [rotated])
  qed
  from Cons.IH [OF wf keys] obtain df' where "apply_columns g (dict_set df out vs) pairs = Inr df'"
    by blast
  then show ?case by (simp add: p c(1) v(1) s)
qed

lemma traverse_Inr:
  "traverse f xs = Inr ys \<Longrightarrow> list_all2 (\<lambda>x y. f x = Inr y) xs ys"
  by (induction xs arbitrary: ys) (auto split: sum.splits)

lemma traverse_total:
  "(\<And>x. x \<in> set xs \<Longrightarrow> \<exists>y. f x = Inr y) \<Longrightarrow> \<exists>ys. traverse f xs = Inr ys \<and> length ys = length xs"
proof (induction xs)
  case Nil
  then show ?case by simp
next
  case (Cons x xs)
  from Cons.prems obtain y where y: "f x = Inr y" by auto
  from Cons obtain ys where "traverse f xs = Inr ys" "length ys = length xs" by auto
  with y show ?case by simp
qed

lemma get_columns_Inr:
  assumes "get_columns df names = Inr columns"
  shows "list_all2 (\<lambda>name cells. (name, cells) \<in> set df) names columns"
proof -
  from assms have "traverse (get_column df) names = Inr columns"
    by (simp add: get_columns_def Let_def split: if_splits)
  then have "list_all2 (\<lambda>name cells. get_column df name = Inr cells) names columns"
    by (rule traverse_Inr)
  moreover have "get_column df name = Inr cells \<Longrightarrow> (name, cells) \<in> set df" for name cells
    by (auto simp: get_column_def split: option.splits dest: map_of_SomeD)
  ultimately show ?thesis by (rule list_all2_mono)
qed

lemma get_columns_present:
  assumes "set names \<subseteq> fst ` set df"
  shows "\<exists>columns. get_columns df names = Inr columns"
proof -
  have "map_of df n \<noteq> None" if "n \<in> set names" for n
    using that assms by (auto simp: map_of_eq_None_iff)
  then have "filter (\<lambda>n. map_of df n = None) names = []"
    by (simp add: filter_empty_conv)
  moreover have "\<exists>ys. traverse (get_column df) names = Inr ys \<and> length ys = length names"
    using assms get_column_present by (intro traverse_total) blast
  ultimately show ?thesis by (auto simp: get_columns_def)
qed

lemma get_columns_rect:
  assumes "wf_frame df" "get_columns df names = Inr columns"
  shows "length columns = length names \<and> (\<forall>cells \<in> set columns. length cells = frame_rows df)"
proof -
  note l = get_columns_Inr [OF assms(2)]
  have "length cells = frame_rows df" if "cells \<in> set columns" for cells
  proof -
    from that obtain i where i: "i < length columns" "cells = columns ! i"
      by (auto simp: in_set_conv_nth)
    with l have "(names ! i, cells) \<in> set df"
      by (simp add: list_all2_conv_all_nth)
    then obtain name where "(name, cells) \<in> set df" ..
    with assms(1) show ?thesis by (rule wf_frame_length)
  qed
  with l show ?thesis by (auto dest: list_all2_lengthD)
qed

lemma foldr_max_rect:
  "(\<And>xs. xs \<in> set xss \<Longrightarrow> length xs = n) \<Longrightarrow>
   foldr (\<lambda>xs. max (length xs)) xss 0 = (if xss = [] then 0 else n)"
  by (induction xss) auto

lemma transpose_rect:
  assumes "\<And>xs. xs \<in> set xss \<Longrightarrow> length xs = n" and "xss \<noteq> []"
  shows "transpose xss = map (\<lambda>i. map (\<lambda>xs. xs ! i) xss) [0..<n]"
proof (rule nth_equalityI)
  show len: "length (transpose xss) = length (map (\<lambda>i. map (\<lambda>xs. xs ! i) xss) [0..<n])"
    using assms by (simp add: length_transpose foldr_max_rect)
  fix i assume "i < length (transpose xss)"
  with len have i: "i < n" by simp
  have "filter (\<lambda>ys. i < length ys) xss = xss"
    using assms(1) i by (simp add: filter_id_conv)
  with i \<open>i < length (transpose xss)\<close>
  show "transpose xss ! i = map (\<lambda>i. map (\<lambda>xs. xs ! i) xss) [0..<n] ! i"
    by (simp add: nth_transpose)
qed

lemma aggregate_rows_joined:
  assumes "wf_frame df" "input \<noteq> []" "frame_rows df \<noteq> 0"
  shows "aggregate_rows str_of sep df input =
     (case get_columns df input of
        Inl e \<Rightarrow> Inl e
      | Inr columns \<Rightarrow> Inr (joined_rows sep str_of columns))"
proof (cases "get_columns df input")
  case (Inl e)
  then show ?thesis by (simp add: aggregate_rows_def)
next
  case (Inr columns)
  note r = get_columns_rect [OF assms(1) Inr]
  with assms(2) have ne: "columns \<noteq> []" by auto
  then obtain c cs where cs: "columns = c # cs" by (cases columns) auto
  with r have n: "length c = frame_rows df" by simp
  have "transpose (map (map str_of) columns) =
        map (\<lambda>i. map (\<lambda>xs. xs ! i) (map (map str_of) columns)) [0..<frame_rows df]"
    using r ne by (intro transpose_rect) auto
  also have "\<dots> = map (\<lambda>i. map (\<lambda>column. str_of (column ! i)) columns) [0..<frame_rows df]"
    using r by (auto simp: comp_def)
  finally have "map (join sep) (transpose (map (map str_of) columns)) =
      joined_rows sep str_of columns"
    by (simp add: joined_rows_def cs n comp_def)
  with Inr assms(3) show ?thesis by (simp add: aggregate_rows_def)
qed

lemma length_joined_rows:
  assumes "wf_frame df" "get_columns df names = Inr columns" "names \<noteq> []"
  shows "length (joined_rows sep str_of columns) = frame_rows df"
proof -
  note r = get_columns_rect [OF assms(1,2)]
  with assms(3) obtain c cs where cs: "columns = c # cs" by (cases columns) auto
  with r show ?thesis by (simp add: joined_rows_def)
qed

lemma aggregate_branch:
  assumes "wf_frame df" "input \<noteq> []" "frame_rows df \<noteq> 0"
  shows "(case aggregate_rows str_of sep df input of
            Inl e \<Rightarrow> Inl e
          | Inr joined \<Rightarrow>
              (case transform joined of
                 Inl e \<Rightarrow> Inl e
               | Inr values \<Rightarrow> set_column df output_column values)) =
         aggregate_call transform sep str_of df input output_column"
  unfolding aggregate_rows_joined [OF assms] aggregate_call_def
  by (simp split: sum.splits)

lemma aggregate_call_succeeds:
  assumes total: "\<And>xs. \<exists>ys. transform xs = Inr ys \<and> length ys = length xs"
    and wf: "wf_frame df" and present: "set input \<subseteq> fst ` set df" and ne: "input \<noteq> []"
  shows "\<exists>df'. aggregate_call transform sep str_of df input output_column = Inr df'"
proof -
  from present obtain columns where c: "get_columns df input = Inr columns"
    using get_columns_present by blast
  from total obtain vs where v: "transform (joined_rows sep str_of columns) = Inr vs"
    "length vs = length (joined_rows sep str_of columns)" by blast
  have "length vs = frame_rows df"
    using v(2) length_joined_rows [OF wf c ne] by simp
  then have "set_column df output_column vs = Inr (dict_set df output_column vs)"
    using wf by (simp add: set_column_ok)
  with c v(1) show ?thesis by (simp add: aggregate_call_def)
qed

lemma wrapper_shape_succeeds:
  assumes total: "\<And>xs. \<exists>ys. transform xs = Inr ys \<and> length ys = length xs"
    and wf: "wf_frame df" and present: "set input \<subseteq> fst ` set df"
    and card: "length input = length output \<or> length output \<le> 1"
    and rows: "length output = 1 \<and> length input > 1 \<longrightarrow> frame_rows df \<noteq> 0"
  shows "\<exists>df'.
     (if length input \<noteq> length output \<and> length output > 1 then Inl extract_error
      else if length output = 1 \<and> length input > 1 then
        (case aggregate_rows str_of sep df input of
           Inl e \<Rightarrow> Inl e
         | Inr joined \<Rightarrow>
             (case transform joined of
                Inl e \<Rightarrow> Inl e
              | Inr values \<Rightarrow> set_column df (hd output) values))
      else apply_columns (\<lambda>cells. transform (map str_of cells)) df (zip input output)) = Inr df'"
proof (cases "length output = 1 \<and> length input > 1")
  case True
  then have ne: "input \<noteq> []" by auto
  from True rows have nz: "frame_rows df \<noteq> 0" by simp
  from aggregate_call_succeeds [OF total wf present ne]
  show ?thesis using True by (simp add: aggregate_branch [OF wf ne nz])
next
  case False
  have g: "\<exists>values. transform (map str_of cells) = Inr values \<and> length values = length cells"
    for cells using total [of "map str_of cells"] by simp
  have "fst ` set (zip input output) \<subseteq> fst ` set df"
    using present by (fastforce dest: set_zip_leftD)
  from apply_columns_succeeds [of "\<lambda>cells. transform (map str_of cells)", OF g wf this]
  show ?thesis using False card by auto
qed

lemma loop_shape_succeeds:
  assumes total: "\<And>cells. \<exists>values. g cells = Inr values \<and> length values = length cells"
    and wf: "wf_frame df" and present: "set input \<subseteq> fst ` set df"
    and card: "length input = length output \<or> length output \<le> 1"
  shows "\<exists>df'.
     (if length input \<noteq> length output \<and> length output > 1 then Inl extract_error
      else apply_columns g df (zip input output)) = Inr df'"
proof -
  have "fst ` set (zip input output) \<subseteq> fst ` set df"
    using present by (fastforce dest: set_zip_leftD)
  from apply_columns_succeeds [of g, OF total wf this]
  show ?thesis using card by auto
qed

text \<open>
  What the check on the lengths does, for each of the seven wrappers (\<open>address\<close>,
  \<open>attributes\<close>, \<open>brackets\<close>, \<open>codes\<close>, \<open>properties\<close>, \<open>regex\<close>, \<open>html\<close>), with
  \<open>n_in\<close> the length of the input list and \<open>n_out\<close> the length of the output list:
  when \<open>n_out > 1\<close> and \<open>n_in \<noteq> n_out\<close> the call raises \<open>extract_error\<close>, whatever
  the table and the transform; otherwise the call succeeds on a well-formed table with
  at least one row that has the input columns, with a transform that returns one result
  per value (and, for \<open>brackets\<close>, a valid \<open>find\<close>).
\<close>

lemma cardinality_check:
  "(length (as_list input) \<noteq> length (output_list input output) \<and>
    1 < length (output_list input output) \<longrightarrow>
      address transform str_of df input output opts = Inl extract_error \<and>
      attributes transform str_of df input output opts = Inl extract_error \<and>
      brackets transform_brackets str_of df input output find' include_brackets = Inl extract_error \<and>
      codes transform str_of df input output opts = Inl extract_error \<and>
      properties transform str_of df input output opts = Inl extract_error \<and>
      regex findall df input pattern output = Inl extract_error \<and>
      html transform str_of df input output opts = Inl extract_error)
   \<and> ((length (as_list input) = length (output_list input output) \<or>
         length (output_list input output) \<le> 1) \<and>
        wf_frame df \<and> frame_rows df \<noteq> 0 \<and> set (as_list input) \<subseteq> fst ` set df \<and>
        (\<forall>xs. \<exists>ys. transform xs opts = Inr ys \<and> length ys = length xs) \<and>
        (\<forall>xs. \<exists>ys. transform_brackets xs (as_list find') include_brackets = Inr ys \<and>
                   length ys = length xs) \<and>
        list_all (\<lambda>element. element \<in> set bracket_types) (as_list find') \<and>
        (\<forall>cell. \<exists>r. findall pattern cell = Inr r) \<longrightarrow>
      (\<exists>df'. address transform str_of df input output opts = Inr df') \<and>
      (\<exists>df'. attributes transform str_of df input output opts = Inr df') \<and>
      (\<exists>df'. brackets transform_brackets str_of df input output find' include_brackets = Inr df') \<and>
      (\<exists>df'. codes transform str_of df input output opts = Inr df') \<and>
      (\<exists>df'. properties transform str_of df input output opts = Inr df') \<and>
      (\<exists>df'. regex findall df input pattern output = Inr df') \<and>
      (\<exists>df'. html transform str_of df input output opts = Inr df'))"
proof (intro conjI impI)
  assume "length (as_list input) \<noteq> length (output_list input output) \<and>
    1 < length (output_list input output)"
  then have bad: "length (as_list input) \<noteq> length (as_list (case output of None \<Rightarrow> input | Some out \<Rightarrow> out))"
      "1 < length (as_list (case output of None \<Rightarrow> input | Some out \<Rightarrow> out))"
    by (simp_all add: output_list_def)
  show "address transform str_of df input output opts = Inl extract_error"
    using bad by (simp add: address_def)
  show "attributes transform str_of df input output opts = Inl extract_error"
    using bad by (simp add: attributes_def)
  show "brackets transform_brackets str_of df input output find' include_brackets = Inl extract_error"
    using bad by (simp add: brackets_def)
  show "codes transform str_of df input output opts = Inl extract_error"
    using bad by (simp add: codes_def)
  show "properties transform str_of df input output opts = Inl extract_error"
    using bad by (simp add: properties_def)
  show "regex findall df input pattern output = Inl extract_error"
    using bad by (simp add: regex_def)
  show "html transform str_of df input output opts = Inl extract_error"
    using bad by (simp add: html_def)
next
  assume a: "(length (as_list input) = length (output_list input output) \<or>
         length (output_list input output) \<le> 1) \<and>
        wf_frame df \<and> frame_rows df \<noteq> 0 \<and> set (as_list input) \<subseteq> fst ` set df \<and>
        (\<forall>xs. \<exists>ys. transform xs opts = Inr ys \<and> length ys = length xs) \<and>
        (\<forall>xs. \<exists>ys. transform_brackets xs (as_list find') include_brackets = Inr ys \<and>
                   length ys = length xs) \<and>
        list_all (\<lambda>element. element \<in> set bracket_types) (as_list find') \<and>
        (\<forall>cell. \<exists>r. findall pattern cell = Inr r)"
  let ?out = "as_list (case output of None \<Rightarrow> input | Some out \<Rightarrow> out)"
  from a have card: "length (as_list input) = length ?out \<or> length ?out \<le> 1"
    and wf: "wf_frame df" and nz: "frame_rows df \<noteq> 0" and present: "set (as_list input) \<subseteq> fst ` set df"
    and total: "\<And>xs. \<exists>ys. transform xs opts = Inr ys \<and> length ys = length xs"
    and total_b: "\<And>xs. \<exists>ys. transform_brackets xs (as_list find') include_brackets = Inr ys \<and>
                   length ys = length xs"
    and find_ok: "list_all (\<lambda>element. element \<in> set bracket_types) (as_list find')"
    and total_f: "\<And>cell. \<exists>r. findall pattern cell = Inr r"
    by (simp_all add: output_list_def)
  from nz have rows: "length ?out = 1 \<and> length (as_list input) > 1 \<longrightarrow> frame_rows df \<noteq> 0"
    by simp
  note shape =
    wrapper_shape_succeeds [of "\<lambda>xs. transform xs opts", OF total wf present card rows]
  show "\<exists>df'. address transform str_of df input output opts = Inr df'"
    unfolding address_def Let_def by (rule shape)
  show "\<exists>df'. attributes transform str_of df input output opts = Inr df'"
    unfolding attributes_def Let_def by (rule shape)
  show "\<exists>df'. codes transform str_of df input output opts = Inr df'"
    unfolding codes_def Let_def by (rule shape)
  show "\<exists>df'. properties transform str_of df input output opts = Inr df'"
    unfolding properties_def Let_def by (rule shape)
  show "\<exists>df'. brackets transform_brackets str_of df input output find' include_brackets = Inr df'"
    using wrapper_shape_succeeds [of "\<lambda>xs. transform_brackets xs (as_list find') include_brackets",
        OF total_b wf present card rows, of str_of "'' ''"] find_ok card
    unfolding brackets_def Let_def by auto
  have g: "\<exists>values. transform (map str_of cells) opts = Inr values \<and> length values = length cells"
    for cells using total [of "map str_of cells"] by simp
  show "\<exists>df'. html transform str_of df input output opts = Inr df'"
    unfolding html_def Let_def
    by (rule loop_shape_succeeds [of "\<lambda>cells. transform (map str_of cells) opts", OF g wf present card])
  have f: "\<exists>values. traverse (findall pattern) cells = Inr values \<and> length values = length cells"
    for cells using total_f by (intro traverse_total) blast
  show "\<exists>df'. regex findall df input pattern output = Inr df'"
    unfolding regex_def Let_def
    by (rule loop_shape_succeeds [of "traverse (findall pattern)", OF f wf present card])
qed

text \<open>
  Claim C1 (the call succeeds when \<open>n_in = n_out\<close> or \<open>n_out = 1\<close>, and every other
  combination of lengths raises the \<open>ValueError\<close> of \<open>extract_error\<close>). The code does
  not refuse an empty list of outputs, which is neither a single column nor as many
  columns as the input: the guard is \<open>len(output) > 1\<close>, so for every table and every
  input each wrapper writes nothing and returns the table (\<open>brackets\<close> after its
  check of \<open>find\<close>).
\<close>

theorem empty_output_not_refused:
  "address transform str_of df input (Some (Many [])) opts = Inr df
   \<and> attributes transform str_of df input (Some (Many [])) opts = Inr df
   \<and> codes transform str_of df input (Some (Many [])) opts = Inr df
   \<and> properties transform str_of df input (Some (Many [])) opts = Inr df
   \<and> html transform str_of df input (Some (Many [])) opts = Inr df
   \<and> regex findall df input pattern (Some (Many [])) = Inr df
   \<and> brackets transform_brackets str_of df input (Some (Many [])) find' include_brackets =
       (if list_all (\<lambda>element. element \<in> set bracket_types) (as_list find')
        then Inr df else Inl find_error)"
  by (simp add: address_def attributes_def codes_def properties_def html_def regex_def
      brackets_def)

text \<open>
  \<open>html\<close> and \<open>regex\<close> have no aggregate mode: with one output and several inputs
  the loop over the zipped pairs handles the first input column only.
\<close>

lemma zip_single_output:
  "length ys = 1 \<Longrightarrow> xs \<noteq> [] \<Longrightarrow> zip xs ys = [(hd xs, hd ys)]"
  by (cases xs; cases ys) auto

lemma html_regex_first_column_only:
  assumes "length (output_list input output) = 1" "1 < length (as_list input)"
  shows "html transform str_of df input output opts =
           apply_columns (\<lambda>cells. transform (map str_of cells) opts) df
             [(hd (as_list input), hd (output_list input output))]"
    and "regex findall df input pattern output =
           apply_columns (traverse (findall pattern)) df
             [(hd (as_list input), hd (output_list input output))]"
proof -
  from assms have ne: "as_list input \<noteq> []" by auto
  note z = zip_single_output [OF assms(1) ne]
  show "html transform str_of df input output opts =
           apply_columns (\<lambda>cells. transform (map str_of cells) opts) df
             [(hd (as_list input), hd (output_list input output))]"
    using assms z by (simp add: html_def output_list_def)
  show "regex findall df input pattern output =
           apply_columns (traverse (findall pattern)) df
             [(hd (as_list input), hd (output_list input output))]"
    using assms z by (simp add: regex_def output_list_def)
qed

text \<open>
  Aggregate mode (one output column, more than one input column) on a well-formed
  table with at least one row: each of \<open>address\<close>, \<open>properties\<close>, \<open>attributes\<close>,
  \<open>codes\<close> and \<open>brackets\<close> is \<open>aggregate_call\<close>: the cells of the input columns, as
  strings, are joined row by row, the transform is invoked once on the joined column,
  and its whole result is assigned to the single output column. The separator is one
  space for \<open>address\<close>, \<open>properties\<close> and \<open>brackets\<close>, and \<open>" AAA "\<close> for
  \<open>attributes\<close> and \<open>codes\<close>. (\<open>brackets\<close> checks \<open>find\<close> first.)
\<close>

lemma aggregate_mode_nonempty:
  "wf_frame df \<and> frame_rows df \<noteq> 0 \<and>
   length (output_list input output) = 1 \<and> 1 < length (as_list input) \<longrightarrow>
     address transform str_of df input output opts =
       aggregate_call (\<lambda>xs. transform xs opts) '' '' str_of df (as_list input)
         (hd (output_list input output))
     \<and> properties transform str_of df input output opts =
       aggregate_call (\<lambda>xs. transform xs opts) '' '' str_of df (as_list input)
         (hd (output_list input output))
     \<and> attributes transform str_of df input output opts =
       aggregate_call (\<lambda>xs. transform xs opts) '' AAA '' str_of df (as_list input)
         (hd (output_list input output))
     \<and> codes transform str_of df input output opts =
       aggregate_call (\<lambda>xs. transform xs opts) '' AAA '' str_of df (as_list input)
         (hd (output_list input output))
     \<and> brackets transform_brackets str_of df input output find' include_brackets =
       (if list_all (\<lambda>element. element \<in> set bracket_types) (as_list find')
        then aggregate_call (\<lambda>xs. transform_brackets xs (as_list find') include_brackets) '' ''
               str_of df (as_list input) (hd (output_list input output))
        else Inl find_error)"
proof (intro impI)
  assume a: "wf_frame df \<and> frame_rows df \<noteq> 0 \<and>
   length (output_list input output) = 1 \<and> 1 < length (as_list input)"
  let ?out = "as_list (case output of None \<Rightarrow> input | Some out \<Rightarrow> out)"
  from a have wf: "wf_frame df" and nz: "frame_rows df \<noteq> 0" and one: "length ?out = 1" and many: "1 < length (as_list input)"
    by (simp_all add: output_list_def)
  from many have ne: "as_list input \<noteq> []" by auto
  note br = aggregate_branch [OF wf ne nz]
  show "address transform str_of df input output opts =
       aggregate_call (\<lambda>xs. transform xs opts) '' '' str_of df (as_list input)
         (hd (output_list input output))
     \<and> properties transform str_of df input output opts =
       aggregate_call (\<lambda>xs. transform xs opts) '' '' str_of df (as_list input)
         (hd (output_list input output))
     \<and> attributes transform str_of df input output opts =
       aggregate_call (\<lambda>xs. transform xs opts) '' AAA '' str_of df (as_list input)
         (hd (output_list input output))
     \<and> codes transform str_of df input output opts =
       aggregate_call (\<lambda>xs. transform xs opts) '' AAA '' str_of df (as_list input)
         (hd (output_list input output))
     \<and> brackets transform_brackets str_of df input output find' include_brackets =
       (if list_all (\<lambda>element. element \<in> set bracket_types) (as_list find')
        then aggregate_call (\<lambda>xs. transform_brackets xs (as_list find') include_brackets) '' ''
               str_of df (as_list input) (hd (output_list input output))
        else Inl find_error)"
    unfolding address_def properties_def attributes_def codes_def brackets_def Let_def
      output_list_def
    using one many
    by (simp add: br [where ?transform = "\<lambda>xs. transform xs opts"]
        br [where ?transform = "\<lambda>xs. transform_brackets xs (as_list find') include_brackets"])
qed

lemma aggregate_mode_example:
  "address (\<lambda>xs (opts :: unit). Inr xs) (\<lambda>s. s)
     [(''a'', [''x'', ''u'']), (''b'', [''y'', ''v''])]
     (Many [''a'', ''b'']) (Some (One ''c'')) () =
     Inr [(''a'', [''x'', ''u'']), (''b'', [''y'', ''v'']), (''c'', [''x y'', ''u v''])]
   \<and> codes (\<lambda>xs (opts :: unit). Inr xs) (\<lambda>s. s)
     [(''a'', [''x'', ''u'']), (''b'', [''y'', ''v''])]
     (Many [''a'', ''b'']) (Some (One ''c'')) () =
     Inr [(''a'', [''x'', ''u'']), (''b'', [''y'', ''v'']), (''c'', [''x AAA y'', ''u AAA v''])]"
proof -
  let ?df = "[(''a'', [''x'', ''u'']), (''b'', [''y'', ''v''])]"
  have wf: "wf_frame ?df" by (simp add: wf_frame_def frame_rows_def)
  have rows: "[0..<2] = [0, Suc 0]" by (simp add: upt_conv_Cons)
  show ?thesis
    using wf aggregate_mode_nonempty [where ?input = "Many [''a'', ''b'']"
        and ?output = "Some (One ''c'')"
        and ?transform = "\<lambda>xs (opts :: unit). Inr xs" and ?str_of = "\<lambda>s. s" and ?df = ?df and ?opts = "()"
        and ?transform_brackets = "\<lambda>xs f b. Inr xs" and ?find' = "One ''all''"]
    by (simp add: output_list_def aggregate_call_def get_columns_def get_column_def
        joined_rows_def set_column_def frame_rows_def rows)
qed

text \<open>
  Claim C7 (in aggregate mode each of the five wrappers joins the input columns row by
  row, invokes the transform once and assigns the result to the single output column).
  On a table without rows the code does none of this: whenever the input columns exist,
  \<open>aggregate\<close> returns a \<open>DataFrame\<close>, \<open>.tolist()\<close> raises \<open>AttributeError\<close> and the
  transform is never called. (\<open>extract.custom\<close> joins the rows with
  \<open>format.concatenate\<close> and succeeds on the same table.)
\<close>

theorem aggregate_empty_table_raises:
  "frame_rows df = 0 \<and> set (as_list input) \<subseteq> fst ` set df \<and>
   length (output_list input output) = 1 \<and> 1 < length (as_list input) \<longrightarrow>
     address transform str_of df input output opts = Inl (AttributeError ''DataFrame'' ''tolist'')
     \<and> properties transform str_of df input output opts =
         Inl (AttributeError ''DataFrame'' ''tolist'')
     \<and> attributes transform str_of df input output opts =
         Inl (AttributeError ''DataFrame'' ''tolist'')
     \<and> codes transform str_of df input output opts =
         Inl (AttributeError ''DataFrame'' ''tolist'')
     \<and> brackets transform_brackets str_of df input output find' include_brackets =
         (if list_all (\<lambda>element. element \<in> set bracket_types) (as_list find')
          then Inl (AttributeError ''DataFrame'' ''tolist'') else Inl find_error)"
proof (intro impI)
  assume a: "frame_rows df = 0 \<and> set (as_list input) \<subseteq> fst ` set df \<and>
   length (output_list input output) = 1 \<and> 1 < length (as_list input)"
  let ?out = "as_list (case output of None \<Rightarrow> input | Some out \<Rightarrow> out)"
  from a have z: "frame_rows df = 0" and present: "set (as_list input) \<subseteq> fst ` set df"
    and one: "length ?out = 1" and many: "1 < length (as_list input)"
    by (simp_all add: output_list_def)
  from present obtain columns where "get_columns df (as_list input) = Inr columns"
    using get_columns_present by blast
  with z have agg: "aggregate_rows str_of sep df (as_list input) =
      Inl (AttributeError ''DataFrame'' ''tolist'')" for sep
    by (simp add: aggregate_rows_def)
  show "address transform str_of df input output opts = Inl (AttributeError ''DataFrame'' ''tolist'')
     \<and> properties transform str_of df input output opts =
         Inl (AttributeError ''DataFrame'' ''tolist'')
     \<and> attributes transform str_of df input output opts =
         Inl (AttributeError ''DataFrame'' ''tolist'')
     \<and> codes transform str_of df input output opts =
         Inl (AttributeError ''DataFrame'' ''tolist'')
     \<and> brackets transform_brackets str_of df input output find' include_brackets =
         (if list_all (\<lambda>element. element \<in> set bracket_types) (as_list find')
          then Inl (AttributeError ''DataFrame'' ''tolist'') else Inl find_error)"
    unfolding address_def properties_def attributes_def codes_def brackets_def Let_def
    using one many by (simp add: agg)
qed

theorem aggregate_empty_table_raises_witness:
  "address (\<lambda>xs (opts :: unit). Inr xs) (\<lambda>s. s) [(''col1'', []), (''col2'', [])]
     (Many [''col1'', ''col2'']) (Some (One ''col3'')) () =
     Inl (AttributeError ''DataFrame'' ''tolist'')
   \<and> codes (\<lambda>xs (opts :: unit). Inr xs) (\<lambda>s. s) [(''col1'', []), (''col2'', [])]
     (Many [''col1'', ''col2'']) (Some (One ''col3'')) () =
     Inl (AttributeError ''DataFrame'' ''tolist'')"
  using aggregate_empty_table_raises [where ?df = "[(''col1'', []), (''col2'', [])]"
      and ?input = "Many [''col1'', ''col2'']" and ?output = "Some (One ''col3'')"
      and ?transform = "\<lambda>xs (opts :: unit). Inr xs" and ?str_of = "\<lambda>s. s" and ?opts = "()"]
  by (simp add: frame_rows_def output_list_def)

section \<open>Properties of \<open>split.list\<close>\<close>

lemma fold_max_Max:
  fixes lens :: "nat list"
  assumes "lens \<noteq> []"
  shows "fold max lens 0 = Max (set lens)"
proof -
  have "fold max lens 0 = Max (set (0 # lens))"
    by (simp only: Max.set_eq_fold)
  also have "\<dots> = Max (set lens)"
    using assms by (simp add: Max_insert)
  finally show ?thesis .
qed

lemma traverse_py_len: "traverse py_len (map CList parsed) = Inr (map length parsed)"
  by (induction parsed) (simp_all add: py_len_def)

lemma traverse_pad_row:
  "traverse (pad_row m) (map CList parsed) =
     Inr (map (\<lambda>xs. xs @ replicate (m - length xs) (CStr [])) parsed)"
  by (induction parsed) (simp_all add: pad_row_def)

lemma length_padded_rows:
  assumes "r \<in> set (padded_rows parsed)"
  shows "length r = Max (length ` set parsed)"
proof -
  from assms obtain xs where xs: "xs \<in> set parsed"
    "r = xs @ replicate (Max (length ` set parsed) - length xs) (CStr [])"
    by (auto simp: padded_rows_def)
  then have "length xs \<le> Max (length ` set parsed)" by simp
  with xs show ?thesis by simp
qed

lemma split_list_padded:
  assumes "get_column df input = Inr rows"
    and "traverse (parse_row json_loads) rows = Inr (map CList parsed)" and "parsed \<noteq> []"
  shows "split_list json_loads to_array df input output =
          (if is_wildcard_output output
           then set_columns to_array df (output_headers output (Max (length ` set parsed)))
                  (padded_rows parsed)
           else case output of
                  One name \<Rightarrow> set_column df name (map CList (padded_rows parsed))
                | Many names \<Rightarrow> set_columns to_array df names (padded_rows parsed))"
proof -
  have m: "fold max (map length parsed) 0 = Max (length ` set parsed)"
    using assms(3) by (simp add: fold_max_Max)
  have p: "padded_rows parsed \<noteq> []" using assms(3) by (simp add: padded_rows_def)
  then have "hd (padded_rows parsed) \<in> set (padded_rows parsed)" by simp
  then have h: "length (hd (padded_rows parsed)) = Max (length ` set parsed)"
    by (rule length_padded_rows)
  show ?thesis
  proof -
    have pad: "traverse (pad_row (Max (length ` set parsed))) (map CList parsed) =
        Inr (padded_rows parsed)"
      by (simp add: traverse_pad_row padded_rows_def)
    show ?thesis
      using assms(3) h
      by (simp add: split_list_def assms(1) assms(2) traverse_py_len m pad
          output_headers_def Let_def)
  qed
qed

lemma dict_set_not_Nil: "dict_set d k v \<noteq> []"
  by (cases d) (auto split: if_splits)

lemma set_each_keys:
  "set_each d ps = Inr d' \<Longrightarrow> set (map fst d) \<subseteq> set (map fst d')"
proof (induction ps arbitrary: d)
  case Nil
  then show ?case by simp
next
  case (Cons q ps)
  obtain n w where q: "q = (n, w)" by (cases q)
  from Cons.prems q obtain d1 where d1: "set_column d n w = Inr d1" "set_each d1 ps = Inr d'"
    by (auto split: sum.splits)
  from d1(1) have "d1 = dict_set d n w" by (auto simp: set_column_def split: if_splits)
  then have "set (map fst d) \<subseteq> set (map fst d1)" by (auto simp: keys_list_dict_set)
  with Cons.IH [OF d1(2)] show ?case by blast
qed

lemma set_each_succeeds:
  "wf_frame df \<Longrightarrow> df \<noteq> [] \<Longrightarrow>
   \<forall>p \<in> set pairs. length (snd p) = frame_rows df \<Longrightarrow>
   \<exists>df'. set_each df pairs = Inr df' \<and> wf_frame df' \<and> frame_rows df' = frame_rows df \<and>
         fst ` set pairs \<subseteq> fst ` set df'"
proof (induction pairs arbitrary: df)
  case Nil
  then show ?case by simp
next
  case (Cons p pairs)
  obtain name vs where p: "p = (name, vs)" by (cases p)
  from Cons.prems(3) p have len: "length vs = frame_rows df" by simp
  let ?df = "dict_set df name vs"
  have s: "set_column df name vs = Inr ?df"
    using Cons.prems(1) len by (simp add: set_column_ok)
  have wf: "wf_frame ?df" using Cons.prems(1) len by (simp add: wf_frame_dict_set)
  have rows: "frame_rows ?df = frame_rows df"
    using Cons.prems(2) len by (rule frame_rows_dict_set)
  have rest: "\<forall>p \<in> set pairs. length (snd p) = frame_rows ?df"
    using Cons.prems(3) rows by simp
  from Cons.IH [OF wf dict_set_not_Nil rest] obtain df' where
    df': "set_each ?df pairs = Inr df'" "wf_frame df'" "frame_rows df' = frame_rows ?df"
      "fst ` set pairs \<subseteq> fst ` set df'" by blast
  have "name \<in> set (map fst ?df)" by (simp add: keys_list_dict_set)
  with set_each_keys [OF df'(1)] have "name \<in> fst ` set df'" by auto
  with df' rows show ?case by (auto simp: p s)
qed

lemma traverse_length: "traverse f xs = Inr ys \<Longrightarrow> length ys = length xs"
  by (drule traverse_Inr) (rule list_all2_lengthD [symmetric])

lemma split_list_wildcard_succeeds:
  assumes col: "get_column df input = Inr rows"
    and parse: "traverse (parse_row json_loads) rows = Inr (map CList parsed)"
    and ne: "parsed \<noteq> []" and wf: "wf_frame df" and wild: "is_wildcard_output output"
    and arr: "to_array (padded_rows parsed) = Inr array"
    and height: "length array = length parsed"
    and wide: "\<forall>r \<in> set array. length r = Max (length ` set parsed)"
  shows "\<exists>df'. split_list json_loads to_array df input output = Inr df' \<and> wf_frame df' \<and>
           frame_rows df' = frame_rows df \<and>
           set (output_headers output (Max (length ` set parsed))) \<subseteq> fst ` set df'"
proof -
  let ?m = "Max (length ` set parsed)"
  let ?names = "output_headers output ?m"
  have in_df: "(input, rows) \<in> set df"
    using col by (auto simp: get_column_def split: option.splits dest: map_of_SomeD)
  then have df_ne: "df \<noteq> []" by auto
  have n: "length array = frame_rows df"
    using height traverse_length [OF parse] wf_frame_length [OF wf in_df] by simp
  have rect: "length r = ?m" if "r \<in> set array" for r
    using that wide by simp
  have rows_ne: "array \<noteq> []" using ne height by auto
  have width: "(case array of [] \<Rightarrow> 0 | r # rest \<Rightarrow> length r) = length ?names"
  proof -
    from rows_ne obtain r rest where r: "array = r # rest" by (cases array) auto
    then have "r \<in> set array" by simp
    then have "length r = ?m" by (rule rect)
    then show ?thesis by (simp add: r output_headers_def)
  qed
  have tr: "transpose array = map (\<lambda>j. map (\<lambda>r. r ! j) array) [0..<?m]"
    using rect rows_ne by (rule transpose_rect)
  have lens: "\<forall>p \<in> set (zip ?names (transpose array)). length (snd p) = frame_rows df"
  proof
    fix p assume "p \<in> set (zip ?names (transpose array))"
    then have "(fst p, snd p) \<in> set (zip ?names (transpose array))" by simp
    then have "snd p \<in> set (transpose array)" by (rule set_zip_rightD)
    then obtain j where "snd p = map (\<lambda>r. r ! j) array" unfolding tr by auto
    then show "length (snd p) = frame_rows df" by (simp add: n)
  qed
  from set_each_succeeds [OF wf df_ne lens] obtain df' where
    df': "set_each df (zip ?names (transpose array)) = Inr df'" "wf_frame df'"
      "frame_rows df' = frame_rows df"
      "fst ` set (zip ?names (transpose array)) \<subseteq> fst ` set df'" by blast
  have "length ?names = length (transpose array)"
    by (simp add: tr output_headers_def)
  then have "fst ` set (zip ?names (transpose array)) = set ?names"
    by (metis list.set_map map_fst_zip)
  with df'(4) have keys: "set ?names \<subseteq> fst ` set df'" by simp
  have "split_list json_loads to_array df input output =
      set_columns to_array df ?names (padded_rows parsed)"
    using wild by (simp add: split_list_padded [OF col parse ne])
  also have "\<dots> = Inr df'"
    using width df'(1) by (simp add: set_columns_def arr)
  finally show ?thesis using df'(2,3) keys by blast
qed

text \<open>
  Claim C10: \<open>split.list\<close> returns the table as it is when the input column has no
  rows. Otherwise, when every row is (or parses to) a list, the rows that are assigned
  are \<open>padded_rows\<close>: every list extended on the right with empty strings to the length
  of the longest one, so all of them have that length. With a wildcard output on a
  well-formed table, the assignment fails when numpy cannot make an array of the padded
  rows, with numpy's error; when numpy makes an array of their shape, the call
  succeeds, the result is well formed with as many rows as before (every column has a
  cell in every row), and it has every generated column.
\<close>

theorem split_list_pads:
  "(get_column df input = Inr [] \<longrightarrow> split_list json_loads to_array df input output = Inr df)
   \<and> (get_column df input = Inr rows \<and>
       traverse (parse_row json_loads) rows = Inr (map CList parsed) \<and> parsed \<noteq> [] \<longrightarrow>
         (\<forall>r \<in> set (padded_rows parsed). length r = Max (length ` set parsed))
       \<and> split_list json_loads to_array df input output =
           (if is_wildcard_output output
            then set_columns to_array df (output_headers output (Max (length ` set parsed)))
                   (padded_rows parsed)
            else case output of
                   One name \<Rightarrow> set_column df name (map CList (padded_rows parsed))
                 | Many names \<Rightarrow> set_columns to_array df names (padded_rows parsed))
       \<and> (is_wildcard_output output \<and> to_array (padded_rows parsed) = Inl e \<longrightarrow>
            split_list json_loads to_array df input output = Inl e)
       \<and> (wf_frame df \<and> is_wildcard_output output \<and>
           to_array (padded_rows parsed) = Inr array \<and> length array = length parsed \<and>
           (\<forall>r \<in> set array. length r = Max (length ` set parsed)) \<longrightarrow>
            (\<exists>df'. split_list json_loads to_array df input output = Inr df' \<and> wf_frame df' \<and>
                   frame_rows df' = frame_rows df \<and>
                   set (output_headers output (Max (length ` set parsed))) \<subseteq> fst ` set df')))"
proof (intro conjI impI ballI)
  assume "get_column df input = Inr []"
  then show "split_list json_loads to_array df input output = Inr df"
    by (simp add: split_list_def)
next
  fix r assume "r \<in> set (padded_rows parsed)"
  then show "length r = Max (length ` set parsed)" by (rule length_padded_rows)
next
  assume a: "get_column df input = Inr rows \<and>
       traverse (parse_row json_loads) rows = Inr (map CList parsed) \<and> parsed \<noteq> []"
  then have c: "get_column df input = Inr rows"
    and p: "traverse (parse_row json_loads) rows = Inr (map CList parsed)"
    and n: "parsed \<noteq> []" by simp_all
  note padded = split_list_padded [OF c p n]
  show "split_list json_loads to_array df input output =
           (if is_wildcard_output output
            then set_columns to_array df (output_headers output (Max (length ` set parsed)))
                   (padded_rows parsed)
            else case output of
                   One name \<Rightarrow> set_column df name (map CList (padded_rows parsed))
                 | Many names \<Rightarrow> set_columns to_array df names (padded_rows parsed))"
    by (rule padded)
  {
    assume "is_wildcard_output output \<and> to_array (padded_rows parsed) = Inl e"
    then show "split_list json_loads to_array df input output = Inl e"
      by (simp add: padded set_columns_def)
  }
  assume b: "wf_frame df \<and> is_wildcard_output output \<and>
           to_array (padded_rows parsed) = Inr array \<and> length array = length parsed \<and>
           (\<forall>r \<in> set array. length r = Max (length ` set parsed))"
  then have w: "wf_frame df" and o: "is_wildcard_output output"
    and arr: "to_array (padded_rows parsed) = Inr array" and h: "length array = length parsed"
    and wd: "\<forall>r \<in> set array. length r = Max (length ` set parsed)" by simp_all
  show "\<exists>df'. split_list json_loads to_array df input output = Inr df' \<and> wf_frame df' \<and>
                   frame_rows df' = frame_rows df \<and>
                   set (output_headers output (Max (length ` set parsed))) \<subseteq> fst ` set df'"
    by (rule split_list_wildcard_succeeds [where ?to_array = to_array, OF c p n w o arr h wd])
qed

theorem split_list_pads_witness:
  "split_list (\<lambda>c. Inl (ValueError ''json'')) Inr
     [(''a'', [CList [CStr ''x'', CStr ''y''], CList [CStr ''z'']])] ''a'' (One ''out_*'') =
   Inr [(''a'', [CList [CStr ''x'', CStr ''y''], CList [CStr ''z'']]),
        (''out_1'', [CStr ''x'', CStr ''z'']),
        (''out_2'', [CStr ''y'', CStr []])]
   \<and> split_list (\<lambda>c. Inl (ValueError ''json'')) Inr [(''a'', [])] ''a'' (One ''out_*'') =
       Inr [(''a'', [])]
   \<and> split_list (\<lambda>c. Inl (ValueError ''json''))
        (\<lambda>rows. Inl (ValueError ''inhomogeneous shape''))
        [(''a'', [CList [CList [CInt 1], CInt 2], CList [CInt 3]])] ''a'' (One ''out_*'') =
       Inl (ValueError ''inhomogeneous shape'')"
proof -
  let ?df = "[(''a'', [CList [CStr ''x'', CStr ''y''], CList [CStr ''z'']])]"
  have m: "Max (length ` set [[CStr ''x'', CStr ''y''], [CStr ''z'']]) = 2" by simp
  have up: "[1..<3] = [1, 2]" by (simp add: upt_conv_Cons)
  have s1: "str_nat (Suc 0) = ''1''" "str_nat (Suc (Suc 0)) = ''2''"
    by code_simp+
  have a: "split_list (\<lambda>c. Inl (ValueError ''json'')) Inr ?df ''a'' (One ''out_*'') =
   Inr [(''a'', [CList [CStr ''x'', CStr ''y''], CList [CStr ''z'']]),
        (''out_1'', [CStr ''x'', CStr ''z'']),
        (''out_2'', [CStr ''y'', CStr []])]"
    using split_list_pads [where ?df = ?df and ?input = "''a''"
        and ?rows = "[CList [CStr ''x'', CStr ''y''], CList [CStr ''z'']]"
        and ?parsed = "[[CStr ''x'', CStr ''y''], [CStr ''z'']]"
        and ?json_loads = "\<lambda>c. Inl (ValueError ''json'')" and ?to_array = Inr
        and ?output = "One ''out_*''"]
    by (simp add: get_column_def parse_row_def is_wildcard_output_def output_headers_def
        padded_rows_def set_columns_def set_column_def frame_rows_def replace_star_def
        m up s1; (elim conjE, assumption)?)
  have b: "split_list (\<lambda>c. Inl (ValueError ''json'')) Inr [(''a'', [])] ''a'' (One ''out_*'') =
       Inr [(''a'', [])]"
    using split_list_pads [where ?df = "[(''a'', [])]" and ?input = "''a''"
        and ?json_loads = "\<lambda>c. Inl (ValueError ''json'')" and ?to_array = Inr
        and ?output = "One ''out_*''"]
    by (simp add: get_column_def)
  have c: "split_list (\<lambda>c. Inl (ValueError ''json''))
        (\<lambda>rows. Inl (ValueError ''inhomogeneous shape''))
        [(''a'', [CList [CList [CInt 1], CInt 2], CList [CInt 3]])] ''a'' (One ''out_*'') =
       Inl (ValueError ''inhomogeneous shape'')"
    using split_list_pads [where ?df = "[(''a'', [CList [CList [CInt 1], CInt 2], CList [CInt 3]])]"
        and ?input = "''a''"
        and ?rows = "[CList [CList [CInt 1], CInt 2], CList [CInt 3]]"
        and ?parsed = "[[CList [CInt 1], CInt 2], [CInt 3]]"
        and ?json_loads = "\<lambda>c. Inl (ValueError ''json'')"
        and ?to_array = "\<lambda>rows. Inl (ValueError ''inhomogeneous shape'')"
        and ?e = "ValueError ''inhomogeneous shape''"
        and ?output = "One ''out_*''"]
    by (simp add: get_column_def parse_row_def is_wildcard_output_def set_columns_def)
  from a b c show ?thesis by (intro conjI)
qed

section \<open>Properties of the Column Matcher: wildcards and order\<close>

lemma segments_not_Nil: "segments esc s \<noteq> []"
  by (induction s arbitrary: esc) (auto split: list.splits)

lemma join_numbered_Cons: "join_numbered f n ((c # x) # xs) = c # join_numbered f n (x # xs)"
  by (cases xs) simp_all

lemma sub_star_segments: "sub_star f n esc s = join_numbered f n (segments esc s)"
proof (induction s arbitrary: n esc)
  case Nil
  then show ?case by simp
next
  case (Cons c cs)
  show ?case
  proof (cases "c = CHR ''*'' \<and> \<not> esc")
    case True
    obtain y ys where y: "segments False cs = y # ys"
      using segments_not_Nil [of False cs] by (cases "segments False cs") auto
    with True Cons.IH [of "Suc n" False] show ?thesis by simp
  next
    case False
    obtain y ys where y: "segments (c = CHR 0x5C) cs = y # ys"
      using segments_not_Nil [of "c = CHR 0x5C" cs] by (cases "segments (c = CHR 0x5C) cs") auto
    have "sub_star f n esc (c # cs) = c # sub_star f n (c = CHR 0x5C) cs"
      using False by auto
    also have "\<dots> = c # join_numbered f n (y # ys)"
      by (simp add: Cons.IH y)
    also have "\<dots> = join_numbered f n (segments esc (c # cs))"
      using False y by (auto simp: join_numbered_Cons)
    finally show ?thesis .
  qed
qed

lemma join_numbered_constant: "join_numbered (\<lambda>n. sep) n xs = join sep xs"
  by (induction sep xs arbitrary: n rule: join.induct) simp_all

lemma unescaped_star_in_set: "unescaped_star esc s \<Longrightarrow> CHR ''*'' \<in> set s"
  by (induction s arbitrary: esc) auto

text \<open>
  Claim C3: a key with an unescaped \<open>*\<close> that is not regex-prefixed becomes
  \<open>regex:\<close> followed by the key with every unescaped \<open>*\<close> replaced by \<open>(.*)\<close>, and
  in the paired value the first unescaped \<open>*\<close> becomes \<open>\g<1>\<close>, the second \<open>\g<2>\<close>
  and so on (\<open>replacer n\<close> is the backreference to group \<open>n\<close>). For the columns
  \<open>a_1\<close>, \<open>a_2\<close>, \<open>b\<close> and the spec \<open>{"a_*": "x_*"}\<close> the result is
  \<open>{"a_1": "x_1", "a_2": "x_2"}\<close>, in that order.
\<close>

theorem wildcard_conversion:
  "(unescaped_star False k \<and> \<not> is_regex_key k \<longrightarrow>
      convert_item (k, v) =
        (''regex:'' @ join ''(.*)'' (segments False k), join_numbered replacer 0 (segments False v)))
   \<and> wildcard_expansion_dict py_re [''a_1'', ''a_2'', ''b''] [(''a_*'', ''x_*'')] =
       Inr [(''a_1'', ''x_1''), (''a_2'', ''x_2'')]"
proof (intro conjI impI)
  assume a: "unescaped_star False k \<and> \<not> is_regex_key k"
  then have "wildcard_search k"
    by (auto simp: wildcard_search_iff dest: unescaped_star_in_set)
  moreover have "sub_star group_pattern 0 False k = join ''(.*)'' (segments False k)"
    unfolding sub_star_segments group_pattern_def by (rule join_numbered_constant)
  ultimately show "convert_item (k, v) =
        (''regex:'' @ join ''(.*)'' (segments False k), join_numbered replacer 0 (segments False v))"
    using a by (simp add: convert_item_def sub_star_segments)
next
  show "wildcard_expansion_dict py_re [''a_1'', ''a_2'', ''b''] [(''a_*'', ''x_*'')] =
       Inr [(''a_1'', ''x_1''), (''a_2'', ''x_2'')]"
    by code_simp
qed

theorem wildcard_conversion_witness:
  "convert_item (''*-*'', ''*+*'') =
     (''regex:(.*)-(.*)'', [CHR 0x5C] @ ''g<1>+'' @ [CHR 0x5C] @ ''g<2>'')"
proof -
  have u: "unescaped_star False ''*-*''" by simp
  have r: "\<not> is_regex_key ''*-*''" by (simp add: is_regex_key_def startswith_def lower_def)
  have s: "str_nat (Suc 0) = ''1''" "str_nat (Suc (Suc 0)) = ''2''" by code_simp+
  from wildcard_conversion [of "''*-*''" "''*+*''"] u r
  show ?thesis by (simp add: replacer_def s)
qed

lemma remdups_append_filter:
  "remdups (xs @ ys) = remdups (filter (\<lambda>x. x \<notin> set ys) xs) @ remdups ys"
  by (induction xs) auto

lemma fromkeys_append:
  "fromkeys (xs @ ys) = fromkeys xs @ filter (\<lambda>y. y \<notin> set xs) (fromkeys ys)"
proof -
  have "remdups (rev ys @ rev xs) =
        remdups (filter (\<lambda>y. y \<notin> set (rev xs)) (rev ys)) @ remdups (rev xs)"
    by (rule remdups_append_filter)
  then show ?thesis
    by (simp add: fromkeys_def remdups_filter rev_filter)
qed

lemma set_fromkeys [simp]: "set (fromkeys xs) = set xs"
  by (simp add: fromkeys_def)

lemma distinct_fromkeys [simp]: "distinct (fromkeys xs)"
  by (simp add: fromkeys_def)

lemma fromkeys_distinct: "distinct xs \<Longrightarrow> fromkeys xs = xs"
  by (simp add: fromkeys_def distinct_remdups_id)

lemma fromkeys_idem [simp]: "fromkeys (fromkeys xs) = fromkeys xs"
  by (simp add: fromkeys_distinct)

lemma fromkeys_inner: "fromkeys (a @ fromkeys b @ c) = fromkeys (a @ b @ c)"
  by (simp add: fromkeys_append)

lemma keys_fold_dict_set:
  "distinct (map fst b) \<Longrightarrow>
   map fst (fold (\<lambda>(k, v) d. dict_set d k v) b a) =
     map fst a @ filter (\<lambda>k. k \<notin> set (map fst a)) (map fst b)"
proof (induction b arbitrary: a)
  case Nil
  then show ?case by simp
next
  case (Cons kv b)
  obtain k v where kv: "kv = (k, v)" by (cases kv)
  from Cons.prems kv have d: "distinct (map fst b)" and nk: "k \<notin> set (map fst b)" by auto
  show ?case
  proof (cases "k \<in> set (map fst a)")
    case True
    then have "map fst (dict_set a k v) = map fst a" by (simp add: keys_list_dict_set)
    with Cons.IH [OF d, of "dict_set a k v"] True kv show ?thesis by simp
  next
    case False
    then have ka: "map fst (dict_set a k v) = map fst a @ [k]" by (simp add: keys_list_dict_set)
    have "filter (\<lambda>x. x \<notin> set (map fst a @ [k])) (map fst b) =
          filter (\<lambda>x. x \<notin> set (map fst a)) (map fst b)"
      using nk by (intro filter_cong) auto
    with Cons.IH [OF d, of "dict_set a k v"] False kv ka show ?thesis by simp
  qed
qed

lemma keys_dict_merge:
  assumes "distinct (map fst a)" "distinct (map fst b)"
  shows "map fst (dict_merge a b) = fromkeys (map fst a @ map fst b)"
  using assms by (simp add: dict_merge_def keys_fold_dict_set fromkeys_append fromkeys_distinct)

lemma keys_dict_set_fromkeys:
  "distinct (map fst d) \<Longrightarrow> map fst (dict_set d k v) = fromkeys (map fst d @ [k])"
proof -
  assume d: "distinct (map fst d)"
  have "fromkeys [k] = [k]" by (simp add: fromkeys_def)
  with d show ?thesis
    by (simp add: keys_list_dict_set fromkeys_append fromkeys_distinct)
qed

lemma regex_columns_Cons:
  "regex_columns re cols (k # ks) =
     (if is_regex_key k then regex_columns re cols ks @ matching_columns re cols k
      else regex_columns re cols ks)"
  by (simp add: regex_columns_def)

lemma literal_columns_Cons:
  "literal_columns cols (k # ks) =
     (if is_regex_key k then literal_columns cols ks
      else (case literal_target cols k of
              None \<Rightarrow> literal_columns cols ks
            | Some c \<Rightarrow> c # literal_columns cols ks))"
  by (simp add: literal_columns_def List.map_filter_simps split: option.splits)

lemma distinct_matching_columns: "distinct (matching_columns re cols k)"
  by (simp add: matching_columns_def)

lemma traverse_same_length: "traverse f xs = Inr ys \<Longrightarrow> length ys = length xs"
  by (induction xs arbitrary: ys) (auto split: sum.splits)

lemma expand_step_regex:
  assumes "is_regex_key column" "expand_step re cols sel column r = Inr r'"
  shows "\<exists>renamed. length renamed = length (matching_columns re cols column) \<and>
           r' = dict_merge (zip (matching_columns re cols column) renamed) r"
proof -
  from assms obtain v renamed where
    "rename_columns re column v (matching_columns re cols column) = Inr renamed"
    "r' = dict_merge (zip (matching_columns re cols column) renamed) r"
    by (auto simp: expand_step_def Let_def split: option.splits sum.splits)
  moreover from this(1) have "length renamed = length (matching_columns re cols column)"
    by (auto simp: rename_columns_def Let_def dest: traverse_same_length)
  ultimately show ?thesis by blast
qed

lemma expand_step_literal:
  assumes "\<not> is_regex_key column" "expand_step re cols sel column r = Inr r'"
  shows "case literal_target cols column of
           None \<Rightarrow> r' = r
         | Some c \<Rightarrow> \<exists>v. map_of sel c = Some v \<and> r' = dict_set r c v"
  using assms
  by (auto simp: expand_step_def literal_target_def getitem_def
      split: sum.splits option.splits if_splits prod.splits)

lemma expand_loop_result:
  "distinct (map fst r) \<Longrightarrow> expand_loop re cols sel ks r = Inr res \<Longrightarrow>
     distinct (map fst res)
   \<and> map fst res = fromkeys (regex_columns re cols ks @ map fst r @ literal_columns cols ks)
   \<and> (\<forall>c. (c \<in> set (literal_columns cols ks) \<longrightarrow> map_of res c = map_of sel c)
          \<and> (c \<notin> set (literal_columns cols ks) \<and> c \<in> set (map fst r) \<longrightarrow>
               map_of res c = map_of r c))"
proof (induction ks arbitrary: r)
  case Nil
  then show ?case
    by (simp add: regex_columns_def literal_columns_def List.map_filter_simps fromkeys_distinct)
next
  case (Cons k ks)
  from Cons.prems(2) obtain r1 where
    step: "expand_step re cols sel k r = Inr r1" and rest: "expand_loop re cols sel ks r1 = Inr res"
    by (auto split: sum.splits)
  let ?R = "regex_columns re cols ks" and ?L = "literal_columns cols ks"
  show ?case
  proof (cases "is_regex_key k")
    case True
    let ?M = "matching_columns re cols k"
    from expand_step_regex [OF True step] obtain renamed where
      len: "length renamed = length ?M" and r1: "r1 = dict_merge (zip ?M renamed) r" by blast
    have kz: "map fst (zip ?M renamed) = ?M" using len by (simp add: map_fst_zip)
    have dz: "distinct (map fst (zip ?M renamed))"
      unfolding kz by (rule distinct_matching_columns)
    have k1: "map fst r1 = fromkeys (?M @ map fst r)"
      unfolding r1 using keys_dict_merge [OF dz Cons.prems(1)] by (simp add: kz)
    then have d1: "distinct (map fst r1)" by simp
    note IH = Cons.IH [OF d1 rest]
    have keys: "map fst res =
        fromkeys (regex_columns re cols (k # ks) @ map fst r @ literal_columns cols (k # ks))"
    proof -
      have "map fst res = fromkeys (?R @ fromkeys (?M @ map fst r) @ ?L)"
        using IH k1 by simp
      also have "\<dots> = fromkeys (?R @ (?M @ map fst r) @ ?L)"
        by (rule fromkeys_inner)
      finally show ?thesis using True
        by (simp add: regex_columns_Cons literal_columns_Cons)
    qed
    have vals: "map_of res c = map_of r c"
      if "c \<notin> set (literal_columns cols (k # ks))" "c \<in> set (map fst r)" for c
    proof -
      from that True have nl: "c \<notin> set ?L" by (simp add: literal_columns_Cons)
      from that(2) have "c \<in> set (map fst r1)" by (simp add: k1)
      with IH nl have "map_of res c = map_of r1 c" by blast
      also have "\<dots> = (map_of (zip ?M renamed) ++ map_of r) c"
        unfolding r1 using map_of_dict_merge [OF Cons.prems(1)] by simp
      also have "\<dots> = map_of r c"
      proof -
        from that(2) obtain v where "map_of r c = Some v"
          by (metis image_set map_of_eq_None_iff not_Some_eq)
        then show ?thesis by (simp add: map_add_def)
      qed
      finally show ?thesis .
    qed
    have lits: "map_of res c = map_of sel c" if "c \<in> set (literal_columns cols (k # ks))" for c
      using that True IH by (simp add: literal_columns_Cons)
    from IH keys vals lits show ?thesis by blast
  next
    case False
    note lit = expand_step_literal [OF False step]
    show ?thesis
    proof (cases "literal_target cols k")
      case None
      with lit have r1: "r1 = r" by simp
      have same: "regex_columns re cols (k # ks) = ?R" "literal_columns cols (k # ks) = ?L"
        using False None by (simp_all add: regex_columns_Cons literal_columns_Cons)
      show ?thesis
        unfolding same using Cons.IH [OF Cons.prems(1)] rest r1 by simp
    next
      case (Some c0)
      with lit obtain v where v: "map_of sel c0 = Some v" and r1: "r1 = dict_set r c0 v"
        by auto
      have k1: "map fst r1 = fromkeys (map fst r @ [c0])"
        unfolding r1 using Cons.prems(1) by (rule keys_dict_set_fromkeys)
      then have d1: "distinct (map fst r1)" by simp
      note IH = Cons.IH [OF d1 rest]
      have same: "regex_columns re cols (k # ks) = ?R" "literal_columns cols (k # ks) = c0 # ?L"
        using False Some by (simp_all add: regex_columns_Cons literal_columns_Cons)
      have keys: "map fst res = fromkeys (?R @ map fst r @ c0 # ?L)"
      proof -
        have "map fst res = fromkeys (?R @ fromkeys (map fst r @ [c0]) @ ?L)"
          using IH k1 by simp
        also have "\<dots> = fromkeys (?R @ (map fst r @ [c0]) @ ?L)"
          by (rule fromkeys_inner)
        finally show ?thesis by simp
      qed
      have m1: "map_of r1 = (map_of r)(c0 \<mapsto> v)"
        unfolding r1 by (rule map_of_dict_set)
      have in1: "c0 \<in> set (map fst r1)" by (simp add: k1)
      have lits: "map_of res c = map_of sel c" if "c \<in> set (c0 # ?L)" for c
      proof (cases "c \<in> set ?L")
        case True
        with IH show ?thesis by blast
      next
        case False
        with that have c: "c = c0" by simp
        with False in1 IH have "map_of res c0 = map_of r1 c0" by blast
        with c v m1 show ?thesis by simp
      qed
      have vals: "map_of res c = map_of r c" if "c \<notin> set (c0 # ?L)" "c \<in> set (map fst r)" for c
      proof -
        from that have nc: "c \<noteq> c0" "c \<notin> set ?L" by simp_all
        from that(2) have "c \<in> set (map fst r1)" by (simp add: k1)
        with IH nc(2) have "map_of res c = map_of r1 c" by blast
        with nc(1) m1 show ?thesis by simp
      qed
      from IH keys lits vals show ?thesis unfolding same by blast
    qed
  qed
qed

text \<open>
  Claim C4, as the code has it. The keys of the mapping that \<open>wildcard_expansion_dict\<close>
  returns are, in order and each at its first occurrence: the columns matched by the
  regex (or wildcard) keys, the matches of a later-declared key before those of an
  earlier-declared one and the columns of one key in table order, and then the columns
  of the literal keys in the order of their declaration. The column of a literal key
  has the rename target that the spec gives for it, also when a regex key matches the
  same column.
\<close>

theorem expansion_order:
  assumes "wildcard_expansion_dict re all_columns selected_columns = Inr result"
  shows "map fst result =
           fromkeys (regex_columns re all_columns (map fst (convert_wildcards selected_columns))
                     @ literal_columns all_columns (map fst (convert_wildcards selected_columns)))
    \<and> (\<forall>c \<in> set (literal_columns all_columns (map fst (convert_wildcards selected_columns))).
          map_of result c = map_of (convert_wildcards selected_columns) c)"
proof -
  let ?tmp = "convert_wildcards selected_columns"
  from assms have "expand_loop re all_columns ?tmp (map fst ?tmp) [] = Inr result"
    by (simp add: wildcard_expansion_dict_def Let_def)
  from expand_loop_result [OF _ this] show ?thesis by simp
qed

theorem expansion_order_witness:
  "fromkeys
     (regex_columns py_re [''a1'', ''b1'', ''c'']
        (map fst (convert_wildcards
           [(''c'', ''C''), (''a*'', ''x*''), (''b*'', ''y*''), (''a1'', ''lit'')]))
      @ literal_columns [''a1'', ''b1'', ''c'']
        (map fst (convert_wildcards
           [(''c'', ''C''), (''a*'', ''x*''), (''b*'', ''y*''), (''a1'', ''lit'')])))
   = [''b1'', ''a1'', ''c'']"
proof -
  have e: "wildcard_expansion_dict py_re [''a1'', ''b1'', ''c'']
      [(''c'', ''C''), (''a*'', ''x*''), (''b*'', ''y*''), (''a1'', ''lit'')] =
      Inr [(''b1'', ''y1''), (''a1'', ''lit''), (''c'', ''C'')]"
    by code_simp
  from expansion_order [OF e] have "map fst [(''b1'', ''y1''), (''a1'', ''lit''), (''c'', ''C'')] =
    fromkeys
     (regex_columns py_re [''a1'', ''b1'', ''c'']
        (map fst (convert_wildcards
           [(''c'', ''C''), (''a*'', ''x*''), (''b*'', ''y*''), (''a1'', ''lit'')]))
      @ literal_columns [''a1'', ''b1'', ''c'']
        (map fst (convert_wildcards
           [(''c'', ''C''), (''a*'', ''x*''), (''b*'', ''y*''), (''a1'', ''lit'')])))"
    by (rule conjunct1)
  then show ?thesis by simp
qed

theorem declaration_order_counterexample:
  "wildcard_expansion_dict py_re [''a1'', ''b1''] [(''a*'', ''x*''), (''b*'', ''y*'')] =
     Inr [(''b1'', ''y1''), (''a1'', ''x1'')]"
  by code_simp

subsection \<open>A column whose name ends in a question mark\<close>

lemma is_regex_key_prefix: "is_regex_key (''regex:'' @ x)"
  by (simp add: is_regex_key_def startswith_def lower_def lower_char_def)

lemma convert_item_literal:
  "\<not> wildcard_search k \<Longrightarrow> convert_item (k, v) = (k, v)"
  by (simp add: convert_item_def)

lemma convert_item_other_key:
  assumes "\<not> is_regex_key k" "k' \<noteq> k"
  shows "fst (convert_item (k', v')) \<noteq> k"
proof (cases "wildcard_search k' \<and> \<not> is_regex_key k'")
  case True
  then have "fst (convert_item (k', v')) = ''regex:'' @ sub_star group_pattern 0 False k'"
    by (simp add: convert_item_def)
  with assms(1) is_regex_key_prefix show ?thesis by metis
next
  case False
  then have "convert_item (k', v') = (k', v')" by (auto simp: convert_item_def)
  with assms(2) show ?thesis by simp
qed

lemma convert_fold_lookup:
  assumes "\<not> is_regex_key k" "\<not> wildcard_search k"
  shows "distinct (map fst sel) \<Longrightarrow>
    map_of (fold (\<lambda>kv tmp. case convert_item kv of (k, v) \<Rightarrow> dict_set tmp k v) sel acc) k =
      (case map_of sel k of None \<Rightarrow> map_of acc k | Some v \<Rightarrow> Some v)"
proof (induction sel arbitrary: acc)
  case Nil
  then show ?case by simp
next
  case (Cons kv sel)
  obtain k' v' where kv: "kv = (k', v')" by (cases kv)
  obtain ck cv where c: "convert_item (k', v') = (ck, cv)" by (cases "convert_item (k', v')")
  from Cons.prems kv have d: "distinct (map fst sel)" and nk: "k' \<notin> fst ` set sel" by auto
  let ?f = "\<lambda>kv tmp. case convert_item kv of (k, v) \<Rightarrow> dict_set tmp k v"
  have step: "fold ?f (kv # sel) acc = fold ?f sel (dict_set acc ck cv)"
    by (simp add: kv c)
  have IH: "map_of (fold ?f sel (dict_set acc ck cv)) k =
      (case map_of sel k of None \<Rightarrow> map_of (dict_set acc ck cv) k | Some v \<Rightarrow> Some v)"
    by (rule Cons.IH [OF d])
  show ?case
  proof (cases "k' = k")
    case True
    with c assms(2) have ck: "ck = k" "cv = v'" by (simp_all add: convert_item_literal)
    from True nk have none: "map_of sel k = None" by (simp add: map_of_eq_None_iff)
    have "map_of (fold ?f (kv # sel) acc) k = Some v'"
      unfolding step IH by (simp add: none ck map_of_dict_set)
    moreover have "map_of (kv # sel) k = Some v'" using True by (simp add: kv)
    ultimately show ?thesis by simp
  next
    case False
    from convert_item_other_key [OF assms(1) False, of v'] c have ne: "ck \<noteq> k" by simp
    have "map_of (fold ?f (kv # sel) acc) k =
        (case map_of sel k of None \<Rightarrow> map_of acc k | Some v \<Rightarrow> Some v)"
      unfolding step IH using ne by (simp add: map_of_dict_set split: option.splits)
    moreover have "map_of (kv # sel) k = map_of sel k" using False by (simp add: kv)
    ultimately show ?thesis by simp
  qed
qed

lemma convert_wildcards_literal:
  assumes "\<not> is_regex_key k" "\<not> wildcard_search k" "distinct (map fst sel)" "(k, v) \<in> set sel"
  shows "map_of (convert_wildcards sel) k = Some v"
proof -
  from assms(3,4) have "map_of sel k = Some v" by simp
  with convert_fold_lookup [OF assms(1,2,3), of "[]"] show ?thesis
    by (simp add: convert_wildcards_def)
qed

lemma literal_target_present:
  "column \<noteq> [] \<Longrightarrow> column \<in> set all_columns \<Longrightarrow> literal_target all_columns column = Some column"
  by (simp add: literal_target_def optional_marker_def)

lemma in_literal_columns:
  assumes "k \<in> set ks" "\<not> is_regex_key k" "literal_target cols k = Some c"
  shows "c \<in> set (literal_columns cols ks)"
  using assms by (induction ks) (auto simp: literal_columns_Cons split: option.splits)

lemma keys_dict_merge_mono: "set (map fst a) \<subseteq> set (map fst (dict_merge a b))"
  unfolding dict_merge_def
proof (induction b arbitrary: a)
  case Nil
  then show ?case by simp
next
  case (Cons kv b)
  obtain k v where kv: "kv = (k, v)" by (cases kv)
  have "set (map fst a) \<subseteq> set (map fst (dict_set a k v))" by (auto simp: keys_list_dict_set)
  with Cons [of "dict_set a k v"] show ?case by (auto simp: kv)
qed

lemma names_loop_keys:
  "names_loop re cols ks r = Inr res \<Longrightarrow>
     set (map fst r) \<subseteq> set (map fst res) \<and>
     (\<forall>k \<in> set ks. \<not> is_regex_key k \<longrightarrow>
        (\<forall>c. literal_target cols k = Some c \<longrightarrow> c \<in> set (map fst res)))"
proof (induction ks arbitrary: r)
  case Nil
  then show ?case by simp
next
  case (Cons k ks)
  from Cons.prems obtain r1 where
    step: "names_step re cols k r = Inr r1" and rest: "names_loop re cols ks r1 = Inr res"
    by (auto split: sum.splits)
  note IH = Cons.IH [OF rest]
  have shape: "(\<exists>b. r1 = dict_merge r b) \<or> (\<exists>c. r1 = dict_set r c ()) \<or> r1 = r"
    using step
    by (auto simp: names_step_def split: if_splits option.splits sum.splits prod.splits)
  have grow: "set (map fst r) \<subseteq> set (map fst r1)"
    using shape
  proof (elim disjE exE)
    fix b assume "r1 = dict_merge r b"
    then show ?thesis using keys_dict_merge_mono [of r b] by simp
  next
    fix c assume "r1 = dict_set r c ()"
    moreover have "set (map fst r) \<subseteq> set (map fst (dict_set r c ()))"
      by (auto simp: keys_list_dict_set)
    ultimately show ?thesis by simp
  next
    assume "r1 = r"
    then show ?thesis by simp
  qed
  have here: "c \<in> set (map fst r1)" if "\<not> is_regex_key k" "literal_target cols k = Some c" for c
    using step that
    by (auto simp: names_step_def literal_target_def keys_dict_set
        split: if_splits sum.splits prod.splits)
  from IH have i1: "set (map fst r1) \<subseteq> set (map fst res)"
    and i2: "\<forall>k \<in> set ks. \<not> is_regex_key k \<longrightarrow>
        (\<forall>c. literal_target cols k = Some c \<longrightarrow> c \<in> set (map fst res))"
    by blast+
  from grow i1 have g: "set (map fst r) \<subseteq> set (map fst res)" by (rule subset_trans)
  have h: "\<not> is_regex_key k \<longrightarrow>
        (\<forall>c. literal_target cols k = Some c \<longrightarrow> c \<in> set (map fst res))"
    using here i1 by blast
  from g h i2 show ?case by (simp del: set_map)
qed

lemma map_of_Some_key: "map_of xs k = Some v \<Longrightarrow> k \<in> set (map fst xs)"
  by (auto dest: map_of_SomeD intro: rev_image_eqI)

lemma convert_name_literal: "\<not> wildcard_search c \<Longrightarrow> convert_name c = c"
  by (simp add: convert_name_def)

lemma literal_key_mapped:
  assumes col: "column \<noteq> []" "column \<in> set all_columns"
    and lit: "\<not> is_regex_key column" "\<not> wildcard_search column"
    and sel: "(column, v) \<in> set selected_columns" "distinct (map fst selected_columns)"
    and run: "wildcard_expansion_dict re all_columns selected_columns = Inr res"
  shows "map_of res column = Some v"
proof -
  let ?tmp = "convert_wildcards selected_columns"
  have tmp: "map_of ?tmp column = Some v"
    by (rule convert_wildcards_literal [OF lit sel(2) sel(1)])
  then have key: "column \<in> set (map fst ?tmp)" by (rule map_of_Some_key)
  have "column \<in> set (literal_columns all_columns (map fst ?tmp))"
    by (rule in_literal_columns [OF key lit(1) literal_target_present [OF col]])
  moreover from run have "expand_loop re all_columns ?tmp (map fst ?tmp) [] = Inr res"
    by (simp add: wildcard_expansion_dict_def Let_def)
  ultimately have "map_of res column = map_of ?tmp column"
    using expand_loop_result [of "[]" re all_columns ?tmp "map fst ?tmp" res] by simp
  with tmp show ?thesis by simp
qed

lemma literal_name_kept:
  assumes col: "column \<noteq> []" "column \<in> set all_columns"
    and lit: "\<not> is_regex_key column" "\<not> wildcard_search column"
    and sel: "column \<in> set (as_list selected)"
    and run: "wildcard_expansion re all_columns selected = Inr cols_out"
  shows "column \<in> set cols_out"
proof -
  from run obtain res where
    loop: "names_loop re all_columns (map convert_name (as_list selected)) [] = Inr res"
    and out: "cols_out = map fst res"
    by (auto simp: wildcard_expansion_def split: sum.splits)
  from sel have "convert_name column \<in> set (map convert_name (as_list selected))" by simp
  then have key: "column \<in> set (map convert_name (as_list selected))"
    by (simp only: convert_name_literal [OF lit(2)])
  from names_loop_keys [OF loop] key lit(1) literal_target_present [OF col]
  have "column \<in> set (map fst res)" by blast
  with out show ?thesis by simp
qed

lemma literal_key_alone:
  assumes col: "column \<noteq> []" "column \<in> set all_columns"
    and lit: "\<not> is_regex_key column" "\<not> wildcard_search column"
  shows "wildcard_expansion_dict re all_columns [(column, v)] = Inr [(column, v)]"
    and "wildcard_expansion re all_columns (One column) = Inr [column]"
  using assms
  by (simp_all add: wildcard_expansion_dict_def wildcard_expansion_def convert_wildcards_def
      convert_item_def convert_name_def expand_step_def names_step_def optional_marker_def
      getitem_def Let_def)

text \<open>
  Claim C9. Let \<open>column\<close> be a literal key (no \<open>regex:\<close> prefix, no wildcard) that ends in
  \<open>?\<close> and is itself a column of the table. Then both functions keep it under its full
  name: whenever \<open>wildcard_expansion_dict\<close> returns for a spec that maps \<open>column\<close> to
  \<open>v\<close>, the result maps \<open>column\<close> to \<open>v\<close>, whatever the other keys of the spec are; and
  whenever \<open>wildcard_expansion\<close> returns for a selection that names \<open>column\<close>, the result
  contains \<open>column\<close>. Called for this key alone, the two functions return exactly
  \<open>{column: v}\<close> and \<open>[column]\<close>. The optional marker is not set for such a key, and
  whenever the marker is set, the key is not a column and loses its last character.
\<close>

theorem question_mark_column_kept:
  assumes "column \<noteq> []" "last column = CHR ''?''" "column \<in> set all_columns"
    and "\<not> is_regex_key column" "\<not> wildcard_search column"
  shows "((column, v) \<in> set selected_columns \<and> distinct (map fst selected_columns) \<and>
            wildcard_expansion_dict re all_columns selected_columns = Inr result
          \<longrightarrow> map_of result column = Some v)
    \<and> (column \<in> set (as_list selected) \<and>
            wildcard_expansion re all_columns selected = Inr cols_out
          \<longrightarrow> column \<in> set cols_out)
    \<and> wildcard_expansion_dict re all_columns [(column, v)] = Inr [(column, v)]
    \<and> wildcard_expansion re all_columns (One column) = Inr [column]
    \<and> optional_marker all_columns column = Inr (column, False)
    \<and> (\<forall>c c'. optional_marker all_columns c = Inr (c', True) \<longrightarrow>
          c \<notin> set all_columns \<and> c' = butlast c)"
proof (intro conjI impI allI)
  assume "(column, v) \<in> set selected_columns \<and> distinct (map fst selected_columns) \<and>
    wildcard_expansion_dict re all_columns selected_columns = Inr result"
  then show "map_of result column = Some v"
    using literal_key_mapped [OF assms(1,3,4,5), of v selected_columns re result] by blast
next
  assume "column \<in> set (as_list selected) \<and>
    wildcard_expansion re all_columns selected = Inr cols_out"
  then show "column \<in> set cols_out"
    using literal_name_kept [OF assms(1,3,4,5), of selected re cols_out] by blast
next
  show "wildcard_expansion_dict re all_columns [(column, v)] = Inr [(column, v)]"
    by (rule literal_key_alone(1) [OF assms(1,3,4,5)])
next
  show "wildcard_expansion re all_columns (One column) = Inr [column]"
    by (rule literal_key_alone(2) [OF assms(1,3,4,5)])
next
  show "optional_marker all_columns column = Inr (column, False)"
    using assms(1,3) by (simp add: optional_marker_def)
next
  fix c c' assume "optional_marker all_columns c = Inr (c', True)"
  then show "c \<notin> set all_columns"
    by (auto simp: optional_marker_def split: if_splits)
next
  fix c c' assume "optional_marker all_columns c = Inr (c', True)"
  then show "c' = butlast c"
    by (auto simp: optional_marker_def split: if_splits)
qed

theorem question_mark_column_kept_witness:
  "wildcard_expansion_dict py_re [''q?'', ''q''] [(''q*'', ''z*''), (''q?'', ''Q'')] =
     Inr [(''q?'', ''Q''), (''q'', ''z'')]
   \<and> map_of [(''q?'', ''Q''), (''q'', ''z'')] ''q?'' = Some ''Q''
   \<and> wildcard_expansion py_re [''q?'', ''q''] (Many [''q'', ''q?'']) = Inr [''q'', ''q?'']
   \<and> ''q?'' \<in> set [''q'', ''q?'']
   \<and> wildcard_expansion_dict py_re [''q?'', ''q''] [(''q?'', ''Q'')] = Inr [(''q?'', ''Q'')]
   \<and> wildcard_expansion py_re [''q?'', ''q''] (One ''q?'') = Inr [''q?'']
   \<and> optional_marker [''q?'', ''q''] ''q?'' = Inr (''q?'', False)"
proof -
  have d: "wildcard_expansion_dict py_re [''q?'', ''q''] [(''q*'', ''z*''), (''q?'', ''Q'')] =
     Inr [(''q?'', ''Q''), (''q'', ''z'')]"
    by code_simp
  have n: "wildcard_expansion py_re [''q?'', ''q''] (Many [''q'', ''q?'']) = Inr [''q'', ''q?'']"
    by code_simp
  have h: "''q?'' \<noteq> []" "last ''q?'' = CHR ''?''" "''q?'' \<in> set [''q?'', ''q'']"
    "\<not> is_regex_key ''q?''" "\<not> wildcard_search ''q?''"
    by (simp_all add: is_regex_key_def startswith_def lower_def lower_char_def)
  note t = question_mark_column_kept [OF h, where ?v = "''Q''" and ?re = py_re
      and ?selected_columns = "[(''q*'', ''z*''), (''q?'', ''Q'')]"
      and ?result = "[(''q?'', ''Q''), (''q'', ''z'')]"
      and ?selected = "Many [''q'', ''q?'']" and ?cols_out = "[''q'', ''q?'']"]
  from t d have "map_of [(''q?'', ''Q''), (''q'', ''z'')] ''q?'' = Some ''Q''" by simp
  moreover from t n have "''q?'' \<in> set [''q'', ''q?'']" by simp
  moreover from t have
    "wildcard_expansion_dict py_re [''q?'', ''q''] [(''q?'', ''Q'')] = Inr [(''q?'', ''Q'')]"
    "wildcard_expansion py_re [''q?'', ''q''] (One ''q?'') = Inr [''q?'']"
    "optional_marker [''q?'', ''q''] ''q?'' = Inr (''q?'', False)"
    by blast+
  ultimately show ?thesis using d n by blast
qed

end
